theory Spec2Isabelle
  imports Complex_Main
begin

section \<open>Conventions of the embedding\<close>

text \<open>
  The development follows \<^verbatim>\<open>src/neural_ar_operations.py\<close> and \<^verbatim>\<open>src/model.py\<close>.
  A tensor entry is a \<^typ>\<open>real\<close>; a tensor of shape (channels, length) is a list of rows,
  one per channel (the batch axis is left out: every operation modelled here treats the
  batch elements independently). A Python exception is a value of \<open>error\<close>, and a function
  that can raise returns \<open>error + 'a\<close> with \<open>Inl\<close> for the exception. An object (\<open>self\<close>) is
  a record of the attributes the methods read; a method is a function of that record.
\<close>

datatype error =
    NameError string
  | AttributeError string
  | IndexError
  | AssertionError string
  | ValueError
  | ZeroDivisionError
  | TypeError
  | RuntimeError
  | UnboundLocalError string

section \<open>Weight-decay-norm coefficient of \<open>AutoEncoder.forward\<close>\<close>

text \<open>
  The fields of \<open>args\<close> read by lines 508-513 of \<^verbatim>\<open>model.py\<close>. The KL-anneal
  coefficient \<open>kl_coeff\<close> comes from \<open>utils.kl_coeff\<close>, which is not among the sources, and is
  a parameter.
\<close>

record args =
  weight_decay_norm_anneal :: bool
  weight_decay_norm_init :: real
  weight_decay_norm :: real

definition wdn_coeff :: "args \<Rightarrow> real \<Rightarrow> error + real" where
  "wdn_coeff a kl_coeff =
     (if weight_decay_norm_anneal a then
        (if weight_decay_norm_init a > 0 \<and> weight_decay_norm a > 0 then
           Inr (exp ((1 - kl_coeff) * ln (weight_decay_norm_init a)
                     + kl_coeff * ln (weight_decay_norm a)))
         else Inl (AssertionError ''init and final wdn should be positive.''))
      else Inr (weight_decay_norm a))"

section \<open>Construction of the autoregressive layers\<close>

subsection \<open>Name resolution\<close>

text \<open>
  A name that a function body loads is looked up in the function's local names, then in
  the names bound at the top level of \<^verbatim>\<open>neural_ar_operations.py\<close> (its imports,
  assignments, functions and classes), then in Python's built-in functions. A name found
  nowhere raises \<open>NameError\<close>.
\<close>

definition module_globals :: "string list" where
  "module_globals =
     [''torch'', ''nn'', ''F'', ''Variable'', ''np'', ''OrderedDict'', ''ConvBNSwish'',
      ''normalize_weight_jit'', ''dist'', ''checkpoint'', ''AROPS'', ''Identity'',
      ''channel_mask'', ''create_conv_mask'', ''norm'', ''_convert_arconv_weights_to_fp16'',
      ''ARConv1d'', ''ELUConv'', ''ARInvertedResidual'', ''MixLogCDFParam'',
      ''mix_log_cdf_flow'']"

definition builtin_names :: "string list" where
  "builtin_names =
     [''abs'', ''all'', ''any'', ''ascii'', ''bin'', ''bool'', ''breakpoint'', ''bytearray'',
      ''bytes'', ''callable'', ''chr'', ''classmethod'', ''compile'', ''complex'', ''delattr'',
      ''dict'', ''dir'', ''divmod'', ''enumerate'', ''eval'', ''exec'', ''filter'', ''float'',
      ''format'', ''frozenset'', ''getattr'', ''globals'', ''hasattr'', ''hash'', ''help'',
      ''hex'', ''id'', ''input'', ''int'', ''isinstance'', ''issubclass'', ''iter'', ''len'',
      ''list'', ''locals'', ''map'', ''max'', ''memoryview'', ''min'', ''next'', ''object'',
      ''oct'', ''open'', ''ord'', ''pow'', ''print'', ''property'', ''range'', ''repr'',
      ''reversed'', ''round'', ''set'', ''setattr'', ''slice'', ''sorted'', ''staticmethod'',
      ''str'', ''sum'', ''super'', ''tuple'', ''type'', ''vars'', ''zip'', ''__import__'']"

definition load_name :: "string list \<Rightarrow> string \<Rightarrow> error + unit" where
  "load_name local_names n =
     (if n \<in> set local_names \<or> n \<in> set module_globals \<or> n \<in> set builtin_names
      then Inr () else Inl (NameError n))"

subsection \<open>\<open>nn.Conv1d\<close> and \<open>ARConv1d\<close>\<close>

text \<open>
  The attributes of a \<open>torch.nn.Conv1d\<close> that \<open>ARConv1d\<close> reads. The weight has shape
  (C_out, C_in / groups, kernel_size); \<open>bias\<close> is \<open>None\<close> when the layer is built with
  \<open>bias=False\<close>.
\<close>

record Conv1d =
  weight :: "real list list list"
  bias :: "real list option"
  stride :: nat
  padding :: nat
  dilation :: nat
  groups :: nat

record ARConv1d = Conv1d +
  causal :: bool
  mode :: string
  log_weight_norm :: "real list"

text \<open>
  \<open>nn.Conv1d.__init__\<close> of PyTorch: it rejects a group count that does not divide both
  channel counts and otherwise stores its arguments, a freshly drawn weight \<open>w0\<close> and,
  with \<open>bias=True\<close>, a freshly drawn bias \<open>b0\<close>.
\<close>

definition nn_Conv1d_init ::
  "real list list list \<Rightarrow> real list \<Rightarrow> int \<Rightarrow> int \<Rightarrow> int \<Rightarrow> int \<Rightarrow> int \<Rightarrow> int \<Rightarrow> int \<Rightarrow> bool
   \<Rightarrow> error + Conv1d" where
  "nn_Conv1d_init w0 b0 C_in C_out kernel_size strd pad dil grp use_bias =
     (if grp \<le> 0 \<or> C_in mod grp \<noteq> 0 \<or> C_out mod grp \<noteq> 0 then Inl ValueError
      else Inr \<lparr> weight = w0, bias = (if use_bias then Some b0 else None),
                 stride = nat strd, padding = nat pad, dilation = nat dil,
                 groups = nat grp \<rparr>)"

text \<open>\<open>norm(t, dim=[1, 2])\<close>: the L2 norm of each output channel of a weight.\<close>

definition norm12 :: "real list list list \<Rightarrow> real list" where
  "norm12 t = map (\<lambda>w_o. sqrt (sum_list (map (\<lambda>w_c. sum_list (map (\<lambda>v. v * v) w_c)) w_o))) t"

definition ARConv1d_init_locals :: "string list" where
  "ARConv1d_init_locals =
     [''self'', ''C_in'', ''C_out'', ''kernel_size'', ''stride'', ''padding'', ''dilation'',
      ''groups'', ''bias'', ''causal'', ''mode'', ''__class__'', ''init'']"

text \<open>The padding that lines 94-99 of \<open>ARConv1d.__init__\<close> store.\<close>

definition ARConv1d_padding :: "bool \<Rightarrow> string \<Rightarrow> int \<Rightarrow> int \<Rightarrow> int" where
  "ARConv1d_padding csl md dil kernel_size =
     (if csl \<and> md = ''SAME'' then dil * (kernel_size - 1)
      else if md = ''SAME'' then dil * (kernel_size - 1) div 2
      else 0)"

text \<open>
  \<open>ARConv1d.__init__\<close>, statement by statement: the call of the base constructor, the
  two \<open>print\<close> calls of lines 90 and 91 (the first loads the names \<open>Cin\<close> and \<open>Cout\<close>, the
  second calls \<open>.type()\<close> on the bias), the padding, the initial log weight norm and the
  \<open>print\<close> of line 106.
\<close>

definition ARConv1d_init ::
  "real list list list \<Rightarrow> real list \<Rightarrow> int \<Rightarrow> int \<Rightarrow> int \<Rightarrow> int \<Rightarrow> int \<Rightarrow> int \<Rightarrow> int \<Rightarrow> bool
   \<Rightarrow> bool \<Rightarrow> string \<Rightarrow> error + ARConv1d" where
  "ARConv1d_init w0 b0 C_in C_out kernel_size strd pad dil grp use_bias csl md =
     (case nn_Conv1d_init w0 b0 C_in C_out kernel_size strd pad dil grp use_bias of
        Inl e \<Rightarrow> Inl e
      | Inr base \<Rightarrow>
         (case load_name ARConv1d_init_locals ''Cin'' of
            Inl e \<Rightarrow> Inl e
          | Inr _ \<Rightarrow>
             (case load_name ARConv1d_init_locals ''Cout'' of
                Inl e \<Rightarrow> Inl e
              | Inr _ \<Rightarrow>
                 (case bias base of
                    None \<Rightarrow> Inl (AttributeError ''type'')
                  | Some _ \<Rightarrow>
                     Inr (Conv1d.extend
                            (base \<lparr> padding := nat (ARConv1d_padding csl md dil kernel_size) \<rparr>)
                            (ARConv1d.fields csl md
                               (map (\<lambda>n. ln (n + 1 / 100)) (norm12 (weight base)))))))))"

subsection \<open>\<open>ELUConv\<close> and \<open>ARInvertedResidual\<close>\<close>

record ELUConv =
  elu_checkpoint_res :: bool
  conv_0 :: ARConv1d

datatype layer = Conv ARConv1d | ELU

record ARInvertedResidual =
  checkpoint_res :: bool
  layers :: "layer list"
  hidden_dim :: int

text \<open>
  \<open>ELUConv.__init__\<close>: it builds its convolution with stride 1 and \<open>bias=True\<close>, then adds
  \<open>log(weight_init_coeff)\<close> to every log weight norm.
\<close>

definition ELUConv_init ::
  "real list list list \<Rightarrow> real list \<Rightarrow> int \<Rightarrow> int \<Rightarrow> int \<Rightarrow> int \<Rightarrow> int \<Rightarrow> bool \<Rightarrow> string
   \<Rightarrow> real \<Rightarrow> bool \<Rightarrow> error + ELUConv" where
  "ELUConv_init w0 b0 C_in C_out kernel_size pad dil csl md weight_init_coeff cp =
     (case ARConv1d_init w0 b0 C_in C_out kernel_size 1 pad dil 1 True csl md of
        Inl e \<Rightarrow> Inl e
      | Inr c \<Rightarrow>
         Inr \<lparr> elu_checkpoint_res = cp,
               conv_0 = c \<lparr> log_weight_norm :=
                              map (\<lambda>v. v + ln weight_init_coeff) (log_weight_norm c) \<rparr> \<rparr>)"

text \<open>
  \<open>ARInvertedResidual.__init__\<close>: two causal convolutions, each followed by an ELU. Both
  convolutions are built with the default \<open>bias=False\<close>. The expansion factor \<open>ex\<close> is an
  integer (6 at the only call), so \<open>int(round(inz * ex))\<close> is \<open>inz * ex\<close>.
\<close>

definition ARInvertedResidual_init ::
  "real list list list \<Rightarrow> real list \<Rightarrow> real list list list \<Rightarrow> real list
   \<Rightarrow> int \<Rightarrow> int \<Rightarrow> int \<Rightarrow> int \<Rightarrow> int \<Rightarrow> string \<Rightarrow> bool \<Rightarrow> error + ARInvertedResidual" where
  "ARInvertedResidual_init w1 b1 w2 b2 inz n_inf ex dil k md cp =
     (let hidden = inz * ex; pad = dil * (k - 1) div 2 in
      case ARConv1d_init w1 b1 inz hidden 3 1 1 1 1 False True md of
        Inl e \<Rightarrow> Inl e
      | Inr c1 \<Rightarrow>
         (case ARConv1d_init w2 b2 hidden hidden k 1 pad dil hidden False True md of
            Inl e \<Rightarrow> Inl e
          | Inr c2 \<Rightarrow>
             Inr \<lparr> checkpoint_res = cp, layers = [Conv c1, ELU, Conv c2, ELU],
                   hidden_dim = hidden \<rparr>))"

section \<open>Forward passes of the autoregressive layers\<close>

type_synonym tensor = "real list list"

subsection \<open>Tensor arithmetic\<close>

text \<open>
  The size of a tensor along its two axes, and elementwise binary operations with the
  broadcasting rule of PyTorch: two sizes along an axis are compatible when they are equal
  or one of them is 1, and the axis of size 1 is repeated.
\<close>

definition dims :: "tensor \<Rightarrow> nat \<times> nat" where
  "dims a = (length a, case a of [] \<Rightarrow> 0 | r # _ \<Rightarrow> length r)"

definition bdim :: "nat \<Rightarrow> nat \<Rightarrow> nat option" where
  "bdim m n = (if m = n then Some m else if m = 1 then Some n else if n = 1 then Some m else None)"

definition bcast_to :: "nat \<Rightarrow> 'a list \<Rightarrow> 'a list" where
  "bcast_to n xs = (if length xs = n then xs else replicate n (hd xs))"

definition tensor_binop :: "(real \<Rightarrow> real \<Rightarrow> real) \<Rightarrow> tensor \<Rightarrow> tensor \<Rightarrow> error + tensor" where
  "tensor_binop f a b =
     (case (bdim (fst (dims a)) (fst (dims b)), bdim (snd (dims a)) (snd (dims b))) of
        (Some c, Some l) \<Rightarrow>
          Inr (map2 (\<lambda>ra rb. map2 f (bcast_to l ra) (bcast_to l rb)) (bcast_to c a) (bcast_to c b))
      | _ \<Rightarrow> Inl RuntimeError)"

definition tensor_sub :: "tensor \<Rightarrow> tensor \<Rightarrow> error + tensor" where
  "tensor_sub a b = tensor_binop (-) a b"

text \<open>\<open>a += b\<close>: the sum must have the shape of \<open>a\<close>, which is updated in place.\<close>

definition tensor_iadd :: "tensor \<Rightarrow> tensor \<Rightarrow> error + tensor" where
  "tensor_iadd a b =
     (case tensor_binop (+) a b of
        Inl e \<Rightarrow> Inl e
      | Inr s \<Rightarrow> if dims s = dims a then Inr s else Inl RuntimeError)"

definition zeros_like :: "tensor \<Rightarrow> tensor" where
  "zeros_like a = map (map (\<lambda>_. 0)) a"

text \<open>\<open>F.elu\<close> with its default \<open>alpha = 1\<close>.\<close>

definition elu :: "real \<Rightarrow> real" where
  "elu v = (if v > 0 then v else exp v - 1)"

definition F_elu :: "tensor \<Rightarrow> tensor" where
  "F_elu x = map (map elu) x"

subsection \<open>\<open>F.conv1d\<close>\<close>

text \<open>
  \<open>pad_get xs p j\<close> is entry \<open>j\<close> of the row \<open>xs\<close> after \<open>p\<close> zeros have been put before
  it and \<open>p\<close> zeros after it, which is how \<open>F.conv1d\<close> pads its input.
\<close>

definition pad_get :: "real list \<Rightarrow> nat \<Rightarrow> nat \<Rightarrow> real" where
  "pad_get xs p j = (if p \<le> j \<and> j - p < length xs then xs ! (j - p) else 0)"

text \<open>
  Entry \<open>t\<close> of one output channel: the bias plus, over the input channels \<open>c\<close> of the
  channel's group (starting at \<open>base\<close>) and the taps \<open>k\<close>, the weight times the padded
  input at \<open>t * stride + k * dilation\<close>.
\<close>

definition conv1d_at ::
  "tensor \<Rightarrow> real list list \<Rightarrow> real \<Rightarrow> nat \<Rightarrow> nat \<Rightarrow> nat \<Rightarrow> nat \<Rightarrow> nat \<Rightarrow> real" where
  "conv1d_at x w_o b_o base strd pad dil t =
     b_o + sum_list (map (\<lambda>(c, w_c).
             sum_list (map (\<lambda>(k, v). v * pad_get (x ! (base + c)) pad (t * strd + k * dil))
                           (enumerate 0 w_c)))
           (enumerate 0 w_o))"

definition conv1d_out_len :: "nat \<Rightarrow> nat \<Rightarrow> nat \<Rightarrow> nat \<Rightarrow> nat \<Rightarrow> nat" where
  "conv1d_out_len l k strd pad dil = (l + 2 * pad - dil * (k - 1) - 1) div strd + 1"

text \<open>
  \<open>F.conv1d(x, w, b, stride, padding, dilation, groups)\<close> on an input of shape (C_in, L)
  with a weight of shape (C_out, C_in / groups, K) and a bias of length C_out. PyTorch
  raises \<open>RuntimeError\<close> when the channel counts do not fit or the padded input is shorter
  than the dilated kernel; shapes with no output channel, no input channel or no tap are
  rejected too.
\<close>

definition F_conv1d ::
  "tensor \<Rightarrow> real list list list \<Rightarrow> real list \<Rightarrow> nat \<Rightarrow> nat \<Rightarrow> nat \<Rightarrow> nat \<Rightarrow> error + tensor" where
  "F_conv1d x w b strd pad dil grp =
     (let c_out = length w;
          c_in_g = (case w of [] \<Rightarrow> 0 | w_o # _ \<Rightarrow> length w_o);
          k = (case w of [] \<Rightarrow> 0 | w_o # _ \<Rightarrow> (case w_o of [] \<Rightarrow> 0 | w_c # _ \<Rightarrow> length w_c));
          l = snd (dims x)
      in if grp = 0 \<or> strd = 0 \<or> dil = 0 \<or> c_out = 0 \<or> c_in_g = 0 \<or> k = 0
            \<or> c_out mod grp \<noteq> 0 \<or> length x \<noteq> grp * c_in_g \<or> length b \<noteq> c_out
            \<or> l + 2 * pad < dil * (k - 1) + 1
         then Inl RuntimeError
         else Inr (map (\<lambda>(oc, w_o).
                     map (conv1d_at x w_o (b ! oc) ((oc div (c_out div grp)) * c_in_g) strd pad dil)
                         [0..<conv1d_out_len l k strd pad dil])
                   (enumerate 0 w)))"

subsection \<open>\<open>ARConv1d.forward\<close>\<close>

text \<open>
  Modelled from the spec: \<open>normalize_weight_jit\<close> of \<open>neural_operations\<close>, which is not
  among the sources. Section 4.1 of the specification gives the realized kernel as
  \<open>direction / ||direction|| * exp(log_magnitude)\<close>, per output channel.
\<close>

definition normalize_weight_jit :: "real list \<Rightarrow> real list list list \<Rightarrow> real list list list" where
  "normalize_weight_jit lwn w =
     map (\<lambda>(oc, w_o).
            map (map (\<lambda>v. v / sqrt (sum_list (map (\<lambda>w_c. sum_list (map (\<lambda>u. u * u) w_c)) w_o))
                           * exp (lwn ! oc))) w_o)
         (enumerate 0 w)"

definition normalize_weight :: "ARConv1d \<Rightarrow> real list list list" where
  "normalize_weight c = normalize_weight_jit (log_weight_norm c) (weight c)"

text \<open>
  \<open>ARConv1d.forward\<close>: the weight is normalized, \<open>.type_as(x)\<close> is called on the bias
  (an \<open>AttributeError\<close> when the bias is \<open>None\<close>), \<open>F.conv1d\<close> pads both ends of the
  input by \<open>self.padding\<close>, and a causal layer with a non-zero padding drops the last
  \<open>self.padding\<close> entries of every output row (\<open>out[:, :, :-self.padding]\<close>).
\<close>

definition ARConv1d_forward :: "ARConv1d \<Rightarrow> tensor \<Rightarrow> error + tensor" where
  "ARConv1d_forward c x =
     (let weight_normalized = normalize_weight c in
      case bias c of
        None \<Rightarrow> Inl (AttributeError ''type_as'')
      | Some b \<Rightarrow>
         (case F_conv1d x weight_normalized b (stride c) (padding c) (dilation c) (groups c) of
            Inl e \<Rightarrow> Inl e
          | Inr out \<Rightarrow>
             if causal c \<and> padding c \<noteq> 0
             then Inr (map (\<lambda>row. take (length row - padding c) row) out)
             else Inr out))"

text \<open>A weight of shape (c_out, c_in_g, k): every row of every output channel has \<open>k\<close> taps.\<close>

definition weight_shape :: "real list list list \<Rightarrow> nat \<Rightarrow> nat \<Rightarrow> nat \<Rightarrow> bool" where
  "weight_shape w c_out c_in_g k \<longleftrightarrow>
     length w = c_out \<and> (\<forall>w_o \<in> set w. length w_o = c_in_g \<and> (\<forall>w_c \<in> set w_o. length w_c = k))"

subsection \<open>\<open>ELUConv.forward\<close> and \<open>ARInvertedResidual.forward\<close>\<close>

text \<open>
  Modelled from the spec: \<open>checkpoint\<close> of \<open>thirdparty.checkpoint\<close>, which is not among
  the sources. Section 5 of the specification describes it as running a sub-block under
  a recompute-on-backward discipline that preserves bit-identical outputs: its result is
  the result of the function it is given, on the inputs it is given.
\<close>

definition checkpoint :: "('a \<Rightarrow> error + 'b) \<Rightarrow> 'a \<Rightarrow> error + 'b" where
  "checkpoint func inputs = func inputs"

definition ELUConv_forward :: "ELUConv \<Rightarrow> tensor \<Rightarrow> error + tensor" where
  "ELUConv_forward e x =
     (let out = F_elu x in
      if elu_checkpoint_res e then checkpoint (ARConv1d_forward (conv_0 e)) out
      else ARConv1d_forward (conv_0 e) out)"

fun layer_forward :: "layer \<Rightarrow> tensor \<Rightarrow> error + tensor" where
  "layer_forward (Conv c) x = ARConv1d_forward c x"
| "layer_forward ELU x = Inr (F_elu x)"

text \<open>
  \<open>nn.Sequential\<close>: every layer is applied to the output of the one before it. The
  \<open>nn.ELU(inplace=True)\<close> layers overwrite their input; a layer here returns the new
  value, and that the input tensor is overwritten is not tracked (in \<open>nn.Sequential\<close>
  the overwritten tensor is not read again).
\<close>

fun Sequential :: "layer list \<Rightarrow> tensor \<Rightarrow> error + tensor" where
  "Sequential [] x = Inr x"
| "Sequential (l # ls) x =
     (case layer_forward l x of Inl e \<Rightarrow> Inl e | Inr y \<Rightarrow> Sequential ls y)"

text \<open>
  The loop of lines 179-180, \<open>for layer in self.layers: x = checkpoint(layer, (z, ), ...)\<close>.
  The third argument is the variable \<open>x\<close>, unbound before the first iteration. An
  in-place ELU that this loop reaches would overwrite \<open>z\<close> itself, which is not tracked
  either.
\<close>

fun checkpoint_loop :: "layer list \<Rightarrow> tensor \<Rightarrow> tensor option \<Rightarrow> error + tensor option" where
  "checkpoint_loop [] z x = Inr x"
| "checkpoint_loop (l # ls) z x =
     (case checkpoint (layer_forward l) z of
        Inl e \<Rightarrow> Inl e
      | Inr y \<Rightarrow> checkpoint_loop ls z (Some y))"

definition ARInvertedResidual_forward ::
  "ARInvertedResidual \<Rightarrow> tensor \<Rightarrow> tensor \<Rightarrow> error + tensor" where
  "ARInvertedResidual_forward r z ftr =
     (if checkpoint_res r then
        (case checkpoint_loop (layers r) z None of
           Inl e \<Rightarrow> Inl e
         | Inr None \<Rightarrow> Inl (UnboundLocalError ''x'')
         | Inr (Some x) \<Rightarrow> Inr x)
      else Sequential (layers r) z)"

section \<open>The mixture-of-logistics flow\<close>

text \<open>
  \<open>torch.logsumexp\<close>, \<open>torch.log_softmax\<close> and \<open>F.softplus\<close> along the mixture axis, as
  functions of real numbers (the library evaluates the same quantities in floating point,
  after subtracting the maximum and with a linear branch of \<open>softplus\<close> above its
  threshold; neither changes the real number that is meant).
\<close>

definition logsumexp :: "real list \<Rightarrow> real" where
  "logsumexp xs = ln (sum_list (map exp xs))"

definition log_softmax :: "real list \<Rightarrow> real list" where
  "log_softmax xs = map (\<lambda>x. x - logsumexp xs) xs"

definition softplus :: "real \<Rightarrow> real" where
  "softplus u = ln (1 + exp u)"

text \<open>
  \<open>mix_log_cdf_flow\<close> at one position (batch element, latent channel, time step): \<open>z\<close>,
  \<open>log_a\<close> and \<open>b\<close> are numbers there, and \<open>logit_pi\<close>, \<open>mu\<close> and \<open>log_s\<close> are the lists of
  the values along the mixture axis (\<open>dim=2\<close>), the only axis the function reduces. Every
  line of the function is one binding.
\<close>

definition mix_log_cdf_flow_at ::
  "real \<Rightarrow> real list \<Rightarrow> real list \<Rightarrow> real list \<Rightarrow> real \<Rightarrow> real \<Rightarrow> real \<times> real" where
  "mix_log_cdf_flow_at z logit_pi mu log_s log_a b =
     (let log_s = map (max (- 7)) log_s;
          log_pi = log_softmax logit_pi;
          u = map2 (\<lambda>m ls. - (z - m) * exp (- ls)) mu log_s;
          softplus_u = map softplus u;
          log_mix_cdf = map2 (-) log_pi softplus_u;
          log_one_minus_mix_cdf = map2 (+) log_mix_cdf u;
          log_mix_cdf = logsumexp log_mix_cdf;
          log_one_minus_mix_cdf = logsumexp log_one_minus_mix_cdf;
          new_z = exp log_a * (log_mix_cdf - log_one_minus_mix_cdf) + b;
          log_mix_pdf = logsumexp (map2 (\<lambda>(lp, uu) (ls, sp). lp + uu - ls - 2 * sp)
                                        (zip log_pi u) (zip log_s softplus_u));
          log_det = log_a - log_mix_cdf - log_one_minus_mix_cdf + log_mix_pdf
      in (new_z, log_det))"

text \<open>
  The function on tensors: \<open>z1\<close> has shape (n, L), the mixture parameters (n, k, L), and
  \<open>log_a\<close> and \<open>b\<close> (n, 1, L); every position is transformed on its own.
\<close>

type_synonym tensor3 = "real list list list"

definition mix_log_cdf_flow ::
  "tensor \<Rightarrow> tensor3 \<Rightarrow> tensor3 \<Rightarrow> tensor3 \<Rightarrow> tensor3 \<Rightarrow> tensor3 \<Rightarrow> tensor \<times> tensor" where
  "mix_log_cdf_flow z1 logit_pi mu log_s log_a b =
     (let r = map (\<lambda>(i, z_i).
                 map (\<lambda>(t, z).
                        mix_log_cdf_flow_at z
                          (map (\<lambda>row. row ! t) (logit_pi ! i))
                          (map (\<lambda>row. row ! t) (mu ! i))
                          (map (\<lambda>row. row ! t) (log_s ! i))
                          (log_a ! i ! 0 ! t) (b ! i ! 0 ! t))
                     (enumerate 0 z_i))
               (enumerate 0 z1)
      in (map (map fst) r, map (map snd) r))"

subsection \<open>The mixture of logistics in the specification's words\<close>

text \<open>
  The quantities that section 4.4 of the specification names: the mixture weights are
  the softmax of the logits, the scale of a component is \<open>exp log_s\<close> with \<open>log_s\<close>
  clamped to at least \<open>-7\<close>, the mixture CDF is the weighted sum of the logistic CDFs
  (sigmoids) of the standardized latent, and the mixture density is its derivative.
\<close>

definition sigmoid :: "real \<Rightarrow> real" where
  "sigmoid x = 1 / (1 + exp (- x))"

definition softmax :: "real list \<Rightarrow> real list" where
  "softmax xs = map (\<lambda>x. exp x / sum_list (map exp xs)) xs"

definition mix_scale :: "real \<Rightarrow> real" where
  "mix_scale ls = exp (max (- 7) ls)"

definition mix_cdf :: "real \<Rightarrow> real list \<Rightarrow> real list \<Rightarrow> real list \<Rightarrow> real" where
  "mix_cdf z logit_pi ms log_s =
     sum_list (map (\<lambda>(p, m, ls). p * sigmoid ((z - m) / mix_scale ls))
                   (zip (softmax logit_pi) (zip ms log_s)))"

definition mix_pdf :: "real \<Rightarrow> real list \<Rightarrow> real list \<Rightarrow> real list \<Rightarrow> real" where
  "mix_pdf z logit_pi ms log_s =
     sum_list (map (\<lambda>(p, m, ls).
                      p * (sigmoid ((z - m) / mix_scale ls)
                           * (1 - sigmoid ((z - m) / mix_scale ls)) / mix_scale ls))
                   (zip (softmax logit_pi) (zip ms log_s)))"

section \<open>The autoregressive flow cells of \<^verbatim>\<open>model.py\<close>\<close>

record MixLogCDFParam =
  mix_conv :: ELUConv
  num_z :: nat
  num_mix :: nat

text \<open>
  \<open>MixLogCDFParam.forward\<close>: the output of the one-dimensional convolution has three
  axes (batch, channels, length), so the unpacking \<open>b, c, h, w = out.size()\<close> of line 199
  raises \<open>ValueError\<close>.
\<close>

definition MixLogCDFParam_forward ::
  "MixLogCDFParam \<Rightarrow> tensor \<Rightarrow> error + (tensor3 \<times> tensor3 \<times> tensor3 \<times> tensor3 \<times> tensor3)" where
  "MixLogCDFParam_forward p ftr =
     (case ELUConv_forward (mix_conv p) ftr of
        Inl e \<Rightarrow> Inl e
      | Inr out \<Rightarrow> Inl ValueError)"

text \<open>
  A \<open>CellAR\<close>. Its constructor sets \<open>use_mix_log_cdf = False\<close> and then creates \<open>mu\<close>
  only; an attribute that was not created is \<open>None\<close> here, and reading it raises
  \<open>AttributeError\<close>.
\<close>

record CellAR =
  conv :: ARInvertedResidual
  use_mix_log_cdf :: bool
  param :: "MixLogCDFParam option"
  mu :: "ELUConv option"

definition CellAR_forward :: "CellAR \<Rightarrow> tensor \<Rightarrow> tensor \<Rightarrow> error + (tensor \<times> tensor)" where
  "CellAR_forward c z ftr =
     (case ARInvertedResidual_forward (conv c) z ftr of
        Inl e \<Rightarrow> Inl e
      | Inr s \<Rightarrow>
         if use_mix_log_cdf c then
           (case param c of
              None \<Rightarrow> Inl (AttributeError ''param'')
            | Some p \<Rightarrow>
               (case MixLogCDFParam_forward p s of
                  Inl e \<Rightarrow> Inl e
                | Inr (logit_pi, m, log_s, log_a, b) \<Rightarrow>
                   Inr (mix_log_cdf_flow z logit_pi m log_s log_a b)))
         else
           (case mu c of
              None \<Rightarrow> Inl (AttributeError ''mu'')
            | Some e \<Rightarrow>
               (case ELUConv_forward e s of
                  Inl err \<Rightarrow> Inl err
                | Inr m \<Rightarrow>
                   (case tensor_sub z m of
                      Inl err \<Rightarrow> Inl err
                    | Inr new_z \<Rightarrow> Inr (new_z, zeros_like new_z)))))"

record PairedCellAR =
  cell1 :: CellAR
  cell2 :: CellAR

definition PairedCellAR_forward ::
  "PairedCellAR \<Rightarrow> tensor \<Rightarrow> tensor \<Rightarrow> error + (tensor \<times> tensor)" where
  "PairedCellAR_forward p z ftr =
     (case CellAR_forward (cell1 p) z ftr of
        Inl e \<Rightarrow> Inl e
      | Inr (new_z, log_det1) \<Rightarrow>
         (case CellAR_forward (cell2 p) new_z ftr of
            Inl e \<Rightarrow> Inl e
          | Inr (new_z', log_det2) \<Rightarrow>
             (case tensor_iadd log_det1 log_det2 of
                Inl e \<Rightarrow> Inl e
              | Inr log_det \<Rightarrow> Inr (new_z', log_det))))"

text \<open>
  The shift of an affine cell: what \<open>CellAR.forward\<close> binds to its local variable \<open>mu\<close>,
  the projection \<open>self.mu\<close> applied to the hidden features \<open>self.conv(z, ftr)\<close>.
\<close>

definition CellAR_shift :: "CellAR \<Rightarrow> tensor \<Rightarrow> tensor \<Rightarrow> error + tensor" where
  "CellAR_shift c z ftr =
     (case ARInvertedResidual_forward (conv c) z ftr of
        Inl e \<Rightarrow> Inl e
      | Inr s \<Rightarrow>
         (case mu c of
            None \<Rightarrow> Inl (AttributeError ''mu'')
          | Some e \<Rightarrow> ELUConv_forward e s))"

text \<open>A tensor of shape (c, l): \<open>c\<close> rows of length \<open>l\<close>.\<close>

definition is_tensor :: "nat \<Rightarrow> nat \<Rightarrow> tensor \<Rightarrow> bool" where
  "is_tensor c l a \<longleftrightarrow> length a = c \<and> (\<forall>r \<in> set a. length r = l)"

text \<open>
  A tensor of shape (n, k, l), and the values of such a tensor along its middle axis at
  the position \<open>(i, t)\<close>: for a mixture parameter, its \<open>k\<close> components there.
\<close>

definition is_tensor3 :: "nat \<Rightarrow> nat \<Rightarrow> nat \<Rightarrow> tensor3 \<Rightarrow> bool" where
  "is_tensor3 n k l a \<longleftrightarrow> length a = n \<and> (\<forall>m \<in> set a. is_tensor k l m)"

definition column :: "tensor3 \<Rightarrow> nat \<Rightarrow> nat \<Rightarrow> real list" where
  "column p i t = map (\<lambda>row. row ! t) (p ! i)"

section \<open>The convolution masks\<close>

subsection \<open>NumPy arrays\<close>

text \<open>
  An array is its shape and its entries, addressed by a list of positions, one per axis.
  An index expression \<open>a[i_1, ..., i_n]\<close> is a list of indices, each an integer or a slice
  \<open>start:stop\<close> (either bound may be missing); \<open>Rev\<close> is the slice \<open>::-1\<close>. NumPy raises
  \<open>IndexError\<close> when an expression has more indices than the array has axes, or when an
  integer index is out of range; axes without an index are taken whole.
\<close>

record ndarray =
  shape :: "nat list"
  elems :: "nat list \<Rightarrow> real"

datatype index = Idx int | Slice "int option" "int option" | Rev

definition np_ones :: "int list \<Rightarrow> error + ndarray" where
  "np_ones ds = (if \<exists>d \<in> set ds. d < 0 then Inl ValueError
                 else Inr \<lparr> shape = map nat ds, elems = (\<lambda>_. 1) \<rparr>)"

text \<open>A slice bound on an axis of size \<open>d\<close>: negative bounds count from the end, and
  bounds are clipped to the axis.\<close>

definition slice_bound :: "nat \<Rightarrow> nat \<Rightarrow> int option \<Rightarrow> nat" where
  "slice_bound d dflt bnd =
     (case bnd of None \<Rightarrow> dflt
      | Some n \<Rightarrow> if n < 0 then nat (int d + n) else min d (nat n))"

fun index_ok :: "nat list \<Rightarrow> index list \<Rightarrow> bool" where
  "index_ok ds [] = True"
| "index_ok [] (ix # ixs) = False"
| "index_ok (d # ds) (Idx n # ixs) = (- int d \<le> n \<and> n < int d \<and> index_ok ds ixs)"
| "index_ok (d # ds) (ix # ixs) = index_ok ds ixs"

text \<open>
  \<open>view_pos ds ixs pos\<close>: when the position \<open>pos\<close> of an array of shape \<open>ds\<close> lies in the
  view \<open>a[ixs]\<close>, its position within the view (an integer index removes its axis).
\<close>

fun view_pos :: "nat list \<Rightarrow> index list \<Rightarrow> nat list \<Rightarrow> nat list option" where
  "view_pos [] ixs [] = Some []"
| "view_pos (d # ds) [] (i # is) = map_option ((#) i) (view_pos ds [] is)"
| "view_pos (d # ds) (Idx n # ixs) (i # is) =
     (if int i = (if n < 0 then int d + n else n) then view_pos ds ixs is else None)"
| "view_pos (d # ds) (Slice s e # ixs) (i # is) =
     (let a = slice_bound d 0 s; b = slice_bound d d e
      in if a \<le> i \<and> i < b then map_option ((#) (i - a)) (view_pos ds ixs is) else None)"
| "view_pos (d # ds) (Rev # ixs) (i # is) =
     (if i < d then map_option ((#) (d - 1 - i)) (view_pos ds ixs is) else None)"
| "view_pos _ _ _ = None"

text \<open>
  \<open>a[ixs] = v\<close>, where \<open>v\<close> gives the assigned entry at each position of the view (a
  constant function for a scalar). That the shape of an assigned array fits the view is
  not checked here.
\<close>

definition nd_setitem :: "ndarray \<Rightarrow> index list \<Rightarrow> (nat list \<Rightarrow> real) \<Rightarrow> error + ndarray" where
  "nd_setitem a ixs v =
     (if length ixs > length (shape a) \<or> \<not> index_ok (shape a) ixs then Inl IndexError
      else Inr (a \<lparr> elems := (\<lambda>pos. case view_pos (shape a) ixs pos of
                                      Some rel \<Rightarrow> v rel
                                    | None \<Rightarrow> elems a pos) \<rparr>))"

text \<open>\<open>np.copy(a[:, :, ::-1])\<close>: the array with its third axis reversed.\<close>

definition nd_flip3 :: "ndarray \<Rightarrow> error + ndarray" where
  "nd_flip3 a =
     (if length (shape a) < 3 then Inl IndexError
      else Inr (a \<lparr> elems := (\<lambda>pos. elems a (pos [2 := shape a ! 2 - 1 - pos ! 2])) \<rparr>))"

text \<open>A \<open>for\<close> loop over a list of values whose body can raise.\<close>

fun for_each :: "'i list \<Rightarrow> ('i \<Rightarrow> 's \<Rightarrow> error + 's) \<Rightarrow> 's \<Rightarrow> error + 's" where
  "for_each [] body s = Inr s"
| "for_each (i # is) body s =
     (case body i s of Inl e \<Rightarrow> Inl e | Inr s' \<Rightarrow> for_each is body s')"

subsection \<open>\<open>channel_mask\<close> and \<open>create_conv_mask\<close>\<close>

text \<open>Python's \<open>a % b\<close> and \<open>a // b\<close> on integers raise \<open>ZeroDivisionError\<close> for \<open>b = 0\<close>
  and otherwise round towards minus infinity, as \<open>mod\<close> and \<open>div\<close> on \<^typ>\<open>int\<close> do.\<close>

definition py_mod :: "int \<Rightarrow> int \<Rightarrow> error + int" where
  "py_mod a b = (if b = 0 then Inl ZeroDivisionError else Inr (a mod b))"

definition py_floordiv :: "int \<Rightarrow> int \<Rightarrow> error + int" where
  "py_floordiv a b = (if b = 0 then Inl ZeroDivisionError else Inr (a div b))"

text \<open>The first assertion of \<open>channel_mask\<close>, with the short circuit of \<open>or\<close>.\<close>

definition channel_assert :: "int \<Rightarrow> int \<Rightarrow> error + unit" where
  "channel_assert c_in c_out =
     (case py_mod c_in c_out of
        Inl e \<Rightarrow> Inl e
      | Inr r \<Rightarrow>
         if r = 0 then Inr ()
         else (case py_mod c_out c_in of
                 Inl e \<Rightarrow> Inl e
               | Inr r' \<Rightarrow> if r' = 0 then Inr () else Inl (AssertionError ''%d - %d'')))"

definition channel_mask :: "int \<Rightarrow> int \<Rightarrow> int \<Rightarrow> bool \<Rightarrow> error + ndarray" where
  "channel_mask c_in g_in c_out zero_diag =
     (case channel_assert c_in c_out of
        Inl e \<Rightarrow> Inl e
      | Inr _ \<Rightarrow>
         if \<not> (g_in = 1 \<or> g_in = c_in) then Inl (AssertionError '''')
         else if g_in = 1 then
           (case np_ones [c_out, c_in] of
              Inl e \<Rightarrow> Inl e
            | Inr msk \<Rightarrow>
               if c_out \<ge> c_in then
                 (case py_floordiv c_out c_in of
                    Inl e \<Rightarrow> Inl e
                  | Inr ratio \<Rightarrow>
                     for_each (map int [0..<nat c_in])
                       (\<lambda>i msk.
                          case nd_setitem msk
                                 [Slice (Some (i * ratio)) (Some ((i + 1) * ratio)),
                                  Slice (Some (i + 1)) None] (\<lambda>_. 0) of
                            Inl e \<Rightarrow> Inl e
                          | Inr msk \<Rightarrow>
                             if zero_diag
                             then nd_setitem msk
                                    [Slice (Some (i * ratio)) (Some ((i + 1) * ratio)),
                                     Slice (Some i) (Some (i + 1))] (\<lambda>_. 0)
                             else Inr msk)
                       msk)
               else
                 (case py_floordiv c_in c_out of
                    Inl e \<Rightarrow> Inl e
                  | Inr ratio \<Rightarrow>
                     for_each (map int [0..<nat c_out])
                       (\<lambda>i msk.
                          case nd_setitem msk
                                 [Slice (Some i) (Some (i + 1)),
                                  Slice (Some ((i + 1) * ratio)) None] (\<lambda>_. 0) of
                            Inl e \<Rightarrow> Inl e
                          | Inr msk \<Rightarrow>
                             if zero_diag
                             then nd_setitem msk
                                    [Slice (Some i) (Some (i + 1)),
                                     Slice (Some (i * ratio)) (Some ((i + 1) * ratio))] (\<lambda>_. 0)
                             else Inr msk)
                       msk))
         else
           (case py_floordiv c_in g_in of
              Inl e \<Rightarrow> Inl e
            | Inr q \<Rightarrow>
               (case np_ones [c_out, q] of
                  Inl e \<Rightarrow> Inl e
                | Inr msk \<Rightarrow>
                   if zero_diag then Inr (msk \<lparr> elems := (\<lambda>pos. 0 * elems msk pos) \<rparr>)
                   else Inr msk)))"

text \<open>
  \<open>create_conv_mask\<close>, statement by statement (\<open>msk\<close> is the variable \<open>mask\<close> of the
  source). The array of line 62 has three axes; the index expressions of lines 63 to 65
  have four indices.
\<close>

definition create_conv_mask ::
  "int \<Rightarrow> int \<Rightarrow> int \<Rightarrow> int \<Rightarrow> bool \<Rightarrow> bool \<Rightarrow> error + ndarray" where
  "create_conv_mask kernel_size c_in g_in c_out zero_diag mirror =
     (let m = (kernel_size - 1) div 2 in
      case py_floordiv c_in g_in of
        Inl e \<Rightarrow> Inl e
      | Inr q \<Rightarrow>
      (case np_ones [c_out, q, kernel_size] of
        Inl e \<Rightarrow> Inl e
      | Inr msk \<Rightarrow>
      (case nd_setitem msk [Slice None None, Slice None None, Slice (Some m) None,
                             Slice None None] (\<lambda>_. 0) of
        Inl e \<Rightarrow> Inl e
      | Inr msk \<Rightarrow>
      (case nd_setitem msk [Slice None None, Slice None None, Idx m, Slice None (Some m)]
                       (\<lambda>_. 1) of
        Inl e \<Rightarrow> Inl e
      | Inr msk \<Rightarrow>
      (case channel_mask c_in g_in c_out zero_diag of
        Inl e \<Rightarrow> Inl e
      | Inr cm \<Rightarrow>
      (case nd_setitem msk [Slice None None, Slice None None, Idx m, Idx m] (elems cm) of
        Inl e \<Rightarrow> Inl e
      | Inr msk \<Rightarrow>
         if mirror then nd_flip3 msk else Inr msk))))))"

section \<open>The towers and latent groups of \<open>AutoEncoder.forward\<close>\<close>

text \<open>
  The modules that \<^verbatim>\<open>model.py\<close> imports (\<open>Cell\<close> primitives, combiner cells, samplers,
  \<open>Normal\<close>) are not among the sources. A tensor is a value of a type \<open>'t\<close> with addition
  and subtraction, a distribution a value of a type \<open>'d\<close>, and the imported operations
  are parameters: the modules are functions stored in the model, the operations of
  \<open>Normal\<close> and of \<open>torch\<close> the fields of a record \<open>lib\<close>. \<open>dist.sample()\<close> draws noise;
  here the noise of the latent group \<open>i\<close> is the parameter \<open>noise i\<close>. The entries of
  \<open>nf_cells\<close> are the forward functions of the flow cells; the list is empty in every
  model that \<open>init_normal_sampler\<close> builds.
\<close>

datatype 't cell =
    Cell string "'t \<Rightarrow> error + 't"
  | CombinerCell string "'t \<Rightarrow> 't \<Rightarrow> error + 't"

fun cell_type :: "'t cell \<Rightarrow> string" where
  "cell_type (Cell ct f) = ct"
| "cell_type (CombinerCell ct f) = ct"

text \<open>Calling a cell with one tensor, and with two; the wrong number raises \<open>TypeError\<close>.\<close>

fun call1 :: "'t cell \<Rightarrow> 't \<Rightarrow> error + 't" where
  "call1 (Cell ct f) x = f x"
| "call1 (CombinerCell ct f) x = Inl TypeError"

fun call2 :: "'t cell \<Rightarrow> 't \<Rightarrow> 't \<Rightarrow> error + 't" where
  "call2 (CombinerCell ct f) x1 x2 = f x1 x2"
| "call2 (Cell ct f) x1 x2 = Inl TypeError"

text \<open>Indexing a list with a non-negative index.\<close>

definition nth_err :: "'a list \<Rightarrow> nat \<Rightarrow> error + 'a" where
  "nth_err xs i = (if i < length xs then Inr (xs ! i) else Inl IndexError)"

record ('t, 'd) lib =
  Normal :: "'t \<Rightarrow> 't \<Rightarrow> 'd"
  sample :: "'d \<Rightarrow> 't \<Rightarrow> 't"
  log_p :: "'d \<Rightarrow> 't \<Rightarrow> 't"
  kl :: "'d \<Rightarrow> 'd \<Rightarrow> 't"
  chunk :: "'t \<Rightarrow> 't \<times> 't"
  zeros_like_t :: "'t \<Rightarrow> 't"
  expand :: "'t \<Rightarrow> 't \<Rightarrow> 't"

record ('t, 'd) AutoEncoder =
  enc_tower :: "'t cell list"
  dec_tower :: "'t cell list"
  enc0 :: "'t \<Rightarrow> error + 't"
  enc_sampler :: "('t \<Rightarrow> error + 't) list"
  dec_sampler :: "('t \<Rightarrow> error + 't) list"
  nf_cells :: "('t \<Rightarrow> 't \<Rightarrow> error + 't \<times> 't) list"
  num_flows :: int
  with_nf :: bool
  res_dist :: bool
  prior_ftr0 :: 't

text \<open>Lines 168 and 169 of \<open>AutoEncoder.__init__\<close>.\<close>

definition init_nf :: "int \<Rightarrow> ('t, 'd) AutoEncoder \<Rightarrow> ('t, 'd) AutoEncoder" where
  "init_nf num_nf a = a \<lparr> with_nf := (num_nf > 0), num_flows := num_nf \<rparr>"

subsection \<open>The encoder tower\<close>

text \<open>
  Lines 370-377: the loop over \<open>self.enc_tower\<close>, with the stream \<open>s\<close> and the two lists
  \<open>combiner_cells_enc\<close> and \<open>combiner_cells_s\<close>.
\<close>

fun enc_tower_loop ::
  "'t cell list \<Rightarrow> 't \<Rightarrow> 't cell list \<Rightarrow> 't list \<Rightarrow> error + ('t \<times> 't cell list \<times> 't list)" where
  "enc_tower_loop [] s combiner_cells_enc combiner_cells_s =
     Inr (s, combiner_cells_enc, combiner_cells_s)"
| "enc_tower_loop (c # cs) s combiner_cells_enc combiner_cells_s =
     (if cell_type c = ''combiner_enc''
      then enc_tower_loop cs s (combiner_cells_enc @ [c]) (combiner_cells_s @ [s])
      else (case call1 c s of
              Inl e \<Rightarrow> Inl e
            | Inr s' \<Rightarrow> enc_tower_loop cs s' combiner_cells_enc combiner_cells_s))"

subsection \<open>Normalizing flows of one latent group\<close>

text \<open>
  The loop \<open>for n in range(self.num_flows): z, log_det = self.nf_cells[nf_offset + n](z, ftr);
  log_q_conv -= log_det\<close> of lines 393-395 and 428-430, over the values \<open>ns\<close> of the range.
\<close>

fun apply_nf ::
  "('t \<Rightarrow> 't \<Rightarrow> error + 't \<times> 't) list \<Rightarrow> nat \<Rightarrow> nat list \<Rightarrow> 't \<Rightarrow> 't \<Rightarrow> 't::minus
   \<Rightarrow> error + 't \<times> 't" where
  "apply_nf cells nf_offset [] z ftr log_q_conv = Inr (z, log_q_conv)"
| "apply_nf cells nf_offset (n # ns) z ftr log_q_conv =
     (case nth_err cells (nf_offset + n) of
        Inl e \<Rightarrow> Inl e
      | Inr cell \<Rightarrow>
         (case cell z ftr of
            Inl e \<Rightarrow> Inl e
          | Inr (z', log_det) \<Rightarrow> apply_nf cells nf_offset ns z' ftr (log_q_conv - log_det)))"

definition py_range :: "int \<Rightarrow> nat list" where
  "py_range n = [0..<nat n]"

subsection \<open>The decoder tower\<close>

text \<open>The variables of the loop of lines 413-445.\<close>

record ('t, 'd) dec_state =
  idx_dec :: nat
  s_cur :: 't
  z_cur :: 't
  nf_offset :: nat
  all_q :: "'d list"
  all_p :: "'d list"
  all_log_q :: "'t list"
  all_log_p :: "'t list"

text \<open>Lines 416-439: the latent group of a combiner position with \<open>idx_dec > 0\<close>.\<close>

definition group_step ::
  "('t::{plus,minus}, 'd) AutoEncoder \<Rightarrow> ('t, 'd) lib \<Rightarrow> 't cell list \<Rightarrow> 't list \<Rightarrow> (nat \<Rightarrow> 't)
   \<Rightarrow> ('t, 'd) dec_state \<Rightarrow> error + ('t, 'd) dec_state" where
  "group_step a L combiner_cells_enc combiner_cells_s noise st =
     (case nth_err (dec_sampler a) (idx_dec st - 1) of
        Inl e \<Rightarrow> Inl e
      | Inr smp_p \<Rightarrow>
     (case smp_p (s_cur st) of
        Inl e \<Rightarrow> Inl e
      | Inr param_p \<Rightarrow>
     (case nth_err combiner_cells_enc (idx_dec st - 1) of
        Inl e \<Rightarrow> Inl e
      | Inr cell_e \<Rightarrow>
     (case nth_err combiner_cells_s (idx_dec st - 1) of
        Inl e \<Rightarrow> Inl e
      | Inr s_e \<Rightarrow>
     (case call2 cell_e s_e (s_cur st) of
        Inl e \<Rightarrow> Inl e
      | Inr ftr \<Rightarrow>
     (case nth_err (enc_sampler a) (idx_dec st) of
        Inl e \<Rightarrow> Inl e
      | Inr smp_q \<Rightarrow>
     (case smp_q ftr of
        Inl e \<Rightarrow> Inl e
      | Inr param_q \<Rightarrow>
        (let (mu_p, log_sig_p) = chunk L param_p;
             (mu_q, log_sig_q) = chunk L param_q;
             dist = (if res_dist a then Normal L (mu_p + mu_q) (log_sig_p + log_sig_q)
                     else Normal L mu_q log_sig_q);
             z = sample L dist (noise (idx_dec st));
             log_q_conv = log_p L dist z
         in case apply_nf (nf_cells a) (nf_offset st) (py_range (num_flows a)) z ftr log_q_conv of
              Inl e \<Rightarrow> Inl e
            | Inr (z', log_q_conv') \<Rightarrow>
               (let dist_p = Normal L mu_p log_sig_p;
                    log_p_conv = log_p L dist_p z'
                in Inr (st \<lparr> z_cur := z',
                             nf_offset := nat (int (nf_offset st) + num_flows a),
                             all_q := all_q st @ [dist],
                             all_p := all_p st @ [dist_p],
                             all_log_q := all_log_q st @ [log_q_conv'],
                             all_log_p := all_log_p st @ [log_p_conv] \<rparr>))))))))))"

text \<open>One iteration of the loop over \<open>self.dec_tower\<close>.\<close>

definition dec_step ::
  "('t::{plus,minus}, 'd) AutoEncoder \<Rightarrow> ('t, 'd) lib \<Rightarrow> 't cell list \<Rightarrow> 't list \<Rightarrow> (nat \<Rightarrow> 't)
   \<Rightarrow> 't cell \<Rightarrow> ('t, 'd) dec_state \<Rightarrow> error + ('t, 'd) dec_state" where
  "dec_step a L combiner_cells_enc combiner_cells_s noise c st =
     (if cell_type c = ''combiner_dec'' then
        (case (if idx_dec st > 0
               then group_step a L combiner_cells_enc combiner_cells_s noise st
               else Inr st) of
           Inl e \<Rightarrow> Inl e
         | Inr st1 \<Rightarrow>
            (case call2 c (s_cur st1) (z_cur st1) of
               Inl e \<Rightarrow> Inl e
             | Inr s' \<Rightarrow> Inr (st1 \<lparr> s_cur := s', idx_dec := idx_dec st1 + 1 \<rparr>)))
      else (case call1 c (s_cur st) of
              Inl e \<Rightarrow> Inl e
            | Inr s' \<Rightarrow> Inr (st \<lparr> s_cur := s' \<rparr>)))"

fun dec_tower_loop ::
  "('t::{plus,minus}, 'd) AutoEncoder \<Rightarrow> ('t, 'd) lib \<Rightarrow> 't cell list \<Rightarrow> 't list \<Rightarrow> (nat \<Rightarrow> 't)
   \<Rightarrow> 't cell list \<Rightarrow> ('t, 'd) dec_state \<Rightarrow> error + ('t, 'd) dec_state" where
  "dec_tower_loop a L combiner_cells_enc combiner_cells_s noise [] st = Inr st"
| "dec_tower_loop a L combiner_cells_enc combiner_cells_s noise (c # cs) st =
     (case dec_step a L combiner_cells_enc combiner_cells_s noise c st of
        Inl e \<Rightarrow> Inl e
      | Inr st' \<Rightarrow> dec_tower_loop a L combiner_cells_enc combiner_cells_s noise cs st')"

text \<open>
  Lines 383-411: the first latent group (index 0, with the standard normal prior) and the
  state in which the loop over the decoder tower starts.
\<close>

definition first_group ::
  "('t::{plus,minus}, 'd) AutoEncoder \<Rightarrow> ('t, 'd) lib \<Rightarrow> (nat \<Rightarrow> 't) \<Rightarrow> 't
   \<Rightarrow> error + ('t, 'd) dec_state" where
  "first_group a L noise s =
     (case enc0 a s of
        Inl e \<Rightarrow> Inl e
      | Inr ftr \<Rightarrow>
     (case nth_err (enc_sampler a) 0 of
        Inl e \<Rightarrow> Inl e
      | Inr smp \<Rightarrow>
     (case smp ftr of
        Inl e \<Rightarrow> Inl e
      | Inr param0 \<Rightarrow>
        (let (mu_q, log_sig_q) = chunk L param0;
             dist = Normal L mu_q log_sig_q;
             z = sample L dist (noise 0);
             log_q_conv = log_p L dist z
         in case apply_nf (nf_cells a) 0 (py_range (num_flows a)) z ftr log_q_conv of
              Inl e \<Rightarrow> Inl e
            | Inr (z', log_q_conv') \<Rightarrow>
               (let dist_p = Normal L (zeros_like_t L z') (zeros_like_t L z');
                    log_p_conv = log_p L dist_p z'
                in Inr \<lparr> idx_dec = 0, s_cur = expand L (prior_ftr0 a) z', z_cur = z',
                         nf_offset = nat (0 + num_flows a),
                         all_q = [dist], all_p = [dist_p], all_log_q = [log_q_conv'],
                         all_log_p = [log_p_conv] \<rparr>)))))"

text \<open>
  Lines 370-445 of \<open>AutoEncoder.forward\<close>, from the pre-processed stream \<open>s\<close>: the
  encoder tower, the reversal of the two cache lists, the first latent group and the
  decoder tower.
\<close>

definition forward_latents ::
  "('t::{plus,minus}, 'd) AutoEncoder \<Rightarrow> ('t, 'd) lib \<Rightarrow> (nat \<Rightarrow> 't) \<Rightarrow> 't
   \<Rightarrow> error + ('t, 'd) dec_state" where
  "forward_latents a L noise s =
     (case enc_tower_loop (enc_tower a) s [] [] of
        Inl e \<Rightarrow> Inl e
      | Inr (s', combiner_cells_enc, combiner_cells_s) \<Rightarrow>
         (case first_group a L noise s' of
            Inl e \<Rightarrow> Inl e
          | Inr st0 \<Rightarrow>
             dec_tower_loop a L (rev combiner_cells_enc) (rev combiner_cells_s) noise
               (dec_tower a) st0))"

subsection \<open>The KL terms\<close>

text \<open>The choice of lines 463-466 for one latent group, and the loop over the groups.\<close>

definition kl_per_var ::
  "('t::{plus,minus}, 'd) AutoEncoder \<Rightarrow> ('t, 'd) lib \<Rightarrow> 'd \<Rightarrow> 'd \<Rightarrow> 't \<Rightarrow> 't \<Rightarrow> 't" where
  "kl_per_var a L q p log_q_conv log_p_conv =
     (if with_nf a then log_q_conv - log_p_conv else kl L q p)"

definition kl_terms ::
  "('t::{plus,minus}, 'd) AutoEncoder \<Rightarrow> ('t, 'd) lib \<Rightarrow> ('t, 'd) dec_state \<Rightarrow> 't list" where
  "kl_terms a L st =
     map (\<lambda>(q, p, log_q_conv, log_p_conv). kl_per_var a L q p log_q_conv log_p_conv)
         (zip (all_q st) (zip (all_p st) (zip (all_log_q st) (all_log_p st))))"

subsection \<open>The combiner cache in the specification's words\<close>

text \<open>
  What sections 4.5 and 4.6 of the specification describe, to compare the loops with.
  \<open>run_cells\<close> applies a list of cells one after the other to a stream, and
  \<open>nf_log_dets\<close> applies the flows \<open>off + n\<close>, for \<open>n\<close> in \<open>ns\<close>, one after the other to a
  latent and collects their log-determinants.
\<close>

fun run_cells :: "'t cell list \<Rightarrow> 't \<Rightarrow> error + 't" where
  "run_cells [] s = Inr s"
| "run_cells (c # cs) s = (case call1 c s of Inl e \<Rightarrow> Inl e | Inr s' \<Rightarrow> run_cells cs s')"

fun nf_log_dets ::
  "('t \<Rightarrow> 't \<Rightarrow> error + 't \<times> 't) list \<Rightarrow> nat \<Rightarrow> nat list \<Rightarrow> 't \<Rightarrow> 't \<Rightarrow> error + 't \<times> 't list" where
  "nf_log_dets cells off [] z ftr = Inr (z, [])"
| "nf_log_dets cells off (n # ns) z ftr =
     (case nth_err cells (off + n) of
        Inl e \<Rightarrow> Inl e
      | Inr cell \<Rightarrow>
         (case cell z ftr of
            Inl e \<Rightarrow> Inl e
          | Inr (z', log_det) \<Rightarrow>
             (case nf_log_dets cells off ns z' ftr of
                Inl e \<Rightarrow> Inl e
              | Inr (z'', log_dets) \<Rightarrow> Inr (z'', log_det # log_dets))))"

definition is_combiner_enc :: "'t cell \<Rightarrow> bool" where
  "is_combiner_enc c \<longleftrightarrow> cell_type c = ''combiner_enc''"

definition is_combiner_dec :: "'t cell \<Rightarrow> bool" where
  "is_combiner_dec c \<longleftrightarrow> cell_type c = ''combiner_dec''"

text \<open>
  The pairs that \<open>n\<close> combiner positions take from two cache lists, starting at
  \<open>idx_dec = i\<close>, each with the value of \<open>idx_dec\<close> at which it is taken: position
  \<open>j > 0\<close> takes entry \<open>j - 1\<close> of both lists, position 0 takes nothing.
\<close>

definition cache_reads :: "'t cell list \<Rightarrow> 't list \<Rightarrow> nat \<Rightarrow> nat \<Rightarrow> (nat \<times> 't cell \<times> 't) list" where
  "cache_reads ce cs i n =
     map (\<lambda>j. (j, ce ! (j - 1), cs ! (j - 1))) (filter (\<lambda>j. 0 < j) [i ..< i + n])"

text \<open>
  The latent group of a combiner position after the first, given the cached pair it
  consumes: the prior parameters are projected from the decoder stream, the cached
  combiner cell is applied to the cached encoder stream and the decoder stream, the
  posterior parameters are projected from the result, the latent is sampled and refined
  by the flows, and every flow's log-determinant is subtracted from the posterior
  log-density.
\<close>

definition group_of_pair ::
  "('t::{plus,minus}, 'd) AutoEncoder \<Rightarrow> ('t, 'd) lib \<Rightarrow> (nat \<Rightarrow> 't) \<Rightarrow> 't cell \<times> 't
   \<Rightarrow> ('t, 'd) dec_state \<Rightarrow> error + ('t, 'd) dec_state" where
  "group_of_pair a L noise pair st =
     (case nth_err (dec_sampler a) (idx_dec st - 1) of
        Inl e \<Rightarrow> Inl e
      | Inr prior_projection \<Rightarrow>
     (case prior_projection (s_cur st) of
        Inl e \<Rightarrow> Inl e
      | Inr prior_params \<Rightarrow>
     (case call2 (fst pair) (snd pair) (s_cur st) of
        Inl e \<Rightarrow> Inl e
      | Inr combined \<Rightarrow>
     (case nth_err (enc_sampler a) (idx_dec st) of
        Inl e \<Rightarrow> Inl e
      | Inr posterior_projection \<Rightarrow>
     (case posterior_projection combined of
        Inl e \<Rightarrow> Inl e
      | Inr posterior_params \<Rightarrow>
        (let prior = Normal L (fst (chunk L prior_params)) (snd (chunk L prior_params));
             posterior =
               (if res_dist a
                then Normal L (fst (chunk L prior_params) + fst (chunk L posterior_params))
                              (snd (chunk L prior_params) + snd (chunk L posterior_params))
                else Normal L (fst (chunk L posterior_params)) (snd (chunk L posterior_params)));
             z = sample L posterior (noise (idx_dec st))
         in case nf_log_dets (nf_cells a) (nf_offset st) (py_range (num_flows a)) z combined of
              Inl e \<Rightarrow> Inl e
            | Inr (refined, log_dets) \<Rightarrow>
               Inr (st \<lparr> z_cur := refined,
                          nf_offset := nat (int (nf_offset st) + num_flows a),
                          all_q := all_q st @ [posterior],
                          all_p := all_p st @ [prior],
                          all_log_q := all_log_q st @ [foldl (-) (log_p L posterior z) log_dets],
                          all_log_p := all_log_p st @ [log_p L prior refined] \<rparr>)))))))"

text \<open>
  The decoder traversal with the cache as a queue of pairs: the first combiner position
  consumes nothing, every later one takes the pair at the head of the queue. The result
  is the final state, the pairs left in the queue, and for every pair taken the value of
  \<open>idx_dec\<close> at which it was taken.
\<close>

fun consume_cache ::
  "('t::{plus,minus}, 'd) AutoEncoder \<Rightarrow> ('t, 'd) lib \<Rightarrow> (nat \<Rightarrow> 't) \<Rightarrow> 't cell list
   \<Rightarrow> ('t cell \<times> 't) list \<Rightarrow> ('t, 'd) dec_state
   \<Rightarrow> error + (('t, 'd) dec_state \<times> ('t cell \<times> 't) list \<times> (nat \<times> 't cell \<times> 't) list)" where
  "consume_cache a L noise [] queue st = Inr (st, queue, [])"
| "consume_cache a L noise (c # cs) queue st =
     (if is_combiner_dec c then
        (if idx_dec st = 0 then
           (case call2 c (s_cur st) (z_cur st) of
              Inl e \<Rightarrow> Inl e
            | Inr s' \<Rightarrow> consume_cache a L noise cs queue (st \<lparr> s_cur := s', idx_dec := 1 \<rparr>))
         else
           (case queue of
              [] \<Rightarrow> Inl IndexError
            | pair # rest \<Rightarrow>
               (case group_of_pair a L noise pair st of
                  Inl e \<Rightarrow> Inl e
                | Inr st1 \<Rightarrow>
                   (case call2 c (s_cur st1) (z_cur st1) of
                      Inl e \<Rightarrow> Inl e
                    | Inr s' \<Rightarrow>
                       (case consume_cache a L noise cs rest
                               (st1 \<lparr> s_cur := s', idx_dec := idx_dec st + 1 \<rparr>) of
                          Inl e \<Rightarrow> Inl e
                        | Inr (st', left, taken) \<Rightarrow>
                           Inr (st', left, (idx_dec st, fst pair, snd pair) # taken))))))
      else
        (case call1 c (s_cur st) of
           Inl e \<Rightarrow> Inl e
         | Inr s' \<Rightarrow> consume_cache a L noise cs queue (st \<lparr> s_cur := s' \<rparr>)))"

section \<open>Construction of the flow cells, towers and samplers\<close>

subsection \<open>\<open>CellAR.__init__\<close> and \<open>PairedCellAR.__init__\<close>\<close>

text \<open>
  The constructors of \<^verbatim>\<open>model.py\<close>, lines 59-75 and 91-95. The freshly drawn weights
  and biases of the three convolutions of a cell are the parameters \<open>w\<close> and \<open>b\<close>
  (numbered 0, 1 and 2); the second cell of a pair takes the numbers 3, 4 and 5.
\<close>

definition CellAR_init ::
  "(nat \<Rightarrow> real list list list) \<Rightarrow> (nat \<Rightarrow> real list) \<Rightarrow> int \<Rightarrow> int \<Rightarrow> int \<Rightarrow> bool
   \<Rightarrow> error + CellAR" where
  "CellAR_init w b n_z num_ftr num_c cp =
     (case py_mod num_c n_z of
        Inl e \<Rightarrow> Inl e
      | Inr r \<Rightarrow>
         if r \<noteq> 0 then Inl (AssertionError '''')
         else
           (case ARInvertedResidual_init (w 0) (b 0) (w 1) (b 1) n_z num_ftr 6 1 5 ''SAME'' cp of
              Inl e \<Rightarrow> Inl e
            | Inr block \<Rightarrow>
               (case ELUConv_init (w 2) (b 2) (hidden_dim block) n_z 1 0 1 True ''SAME''
                       (1 / 10) cp of
                  Inl e \<Rightarrow> Inl e
                | Inr proj \<Rightarrow>
                   Inr \<lparr> conv = block, use_mix_log_cdf = False, param = None,
                         mu = Some proj \<rparr>)))"

definition PairedCellAR_init ::
  "(nat \<Rightarrow> real list list list) \<Rightarrow> (nat \<Rightarrow> real list) \<Rightarrow> int \<Rightarrow> int \<Rightarrow> int \<Rightarrow> bool
   \<Rightarrow> error + PairedCellAR" where
  "PairedCellAR_init w b n_z num_ftr num_c cp =
     (case CellAR_init w b n_z num_ftr num_c cp of
        Inl e \<Rightarrow> Inl e
      | Inr c1 \<Rightarrow>
         (case CellAR_init (\<lambda>i. w (3 + i)) (\<lambda>i. b (3 + i)) n_z num_ftr num_c cp of
            Inl e \<Rightarrow> Inl e
          | Inr c2 \<Rightarrow> Inr \<lparr> cell1 = c1, cell2 = c2 \<rparr>))"

text \<open>
  An expression \<open>C(args).forward(x)\<close>: the object is constructed and the method is called
  on it; an exception of the constructor is the exception of the expression.
\<close>

definition construct_and_call :: "error + 'o \<Rightarrow> ('o \<Rightarrow> error + 'r) \<Rightarrow> error + 'r" where
  "construct_and_call constructed method =
     (case constructed of Inl e \<Rightarrow> Inl e | Inr obj \<Rightarrow> method obj)"

subsection \<open>The towers\<close>

text \<open>
  The attributes of \<open>self\<close> that \<open>init_encoder_tower\<close>, \<open>init_decoder_tower\<close> and
  \<open>init_normal_sampler\<close> read. \<open>groups_per_scale\<close> is the list that
  \<open>utils.groups_per_scale\<close> returned. The multiplier \<open>mult\<close> is an integer on the way up
  and a float on the way down (\<open>mult / CHANNEL_MULT\<close>), a real number here; \<open>int(x)\<close>
  rounds towards zero.
\<close>

record config =
  num_latent_scales :: int
  groups_per_scale :: "int list"
  num_cell_per_cond_enc :: int
  num_cell_per_cond_dec :: int
  num_channels_enc :: int
  num_channels_dec :: int
  num_latent_per_group :: int

definition CHANNEL_MULT :: real where
  "CHANNEL_MULT = 2"

definition py_int :: "real \<Rightarrow> int" where
  "py_int x = (if 0 \<le> x then \<lfloor>x\<rfloor> else \<lceil>x\<rceil>)"

text \<open>
  The classes \<open>EncCombinerCell\<close>, \<open>DecCombinerCell\<close> and \<open>Conv1D\<close> and the primitives of
  a \<open>Cell\<close> come from \<open>neural_operations\<close>, which is not among the sources. A constructed
  cell is its cell type (\<open>Cell.__init__\<close> stores the argument \<open>cell_type\<close> in line 30; the
  combiner cells are constructed with the cell type that \<open>forward\<close> tests for) and its
  forward function, which the parameters \<open>cell_fn\<close>, \<open>enc_comb_fn\<close> and \<open>dec_comb_fn\<close> give
  for the constructor's arguments.
\<close>

text \<open>The loop over the groups \<open>g\<close> of one scale \<open>s\<close> in \<open>init_encoder_tower\<close>.\<close>

fun enc_tower_groups ::
  "config \<Rightarrow> (string \<Rightarrow> int \<Rightarrow> int \<Rightarrow> 't \<Rightarrow> error + 't) \<Rightarrow> (int \<Rightarrow> int \<Rightarrow> int \<Rightarrow> 't \<Rightarrow> 't \<Rightarrow> error + 't)
   \<Rightarrow> nat \<Rightarrow> int \<Rightarrow> real \<Rightarrow> nat list \<Rightarrow> 't cell list \<Rightarrow> 't cell list" where
  "enc_tower_groups cfg cell_fn enc_comb_fn s n_groups mult [] tower = tower"
| "enc_tower_groups cfg cell_fn enc_comb_fn s n_groups mult (g # gs) tower =
     (let num_c = py_int (real_of_int (num_channels_enc cfg) * mult);
          tower1 = tower
                   @ map (\<lambda>c. Cell ''normal_enc'' (cell_fn ''normal_enc'' num_c num_c))
                         (py_range (num_cell_per_cond_enc cfg));
          tower2 =
            (if \<not> (int s = num_latent_scales cfg - 1 \<and> int g = n_groups - 1)
             then tower1
                  @ [CombinerCell ''combiner_enc''
                       (enc_comb_fn (py_int (real_of_int (num_channels_enc cfg) * mult))
                                    (py_int (real_of_int (num_channels_dec cfg) * mult))
                                    (py_int (real_of_int (num_channels_enc cfg) * mult)))]
             else tower1)
      in enc_tower_groups cfg cell_fn enc_comb_fn s n_groups mult gs tower2)"

text \<open>The loop over the scales \<open>s\<close>, with the down cell after every scale but the last.\<close>

fun enc_tower_scales ::
  "config \<Rightarrow> (string \<Rightarrow> int \<Rightarrow> int \<Rightarrow> 't \<Rightarrow> error + 't) \<Rightarrow> (int \<Rightarrow> int \<Rightarrow> int \<Rightarrow> 't \<Rightarrow> 't \<Rightarrow> error + 't)
   \<Rightarrow> nat list \<Rightarrow> 't cell list \<Rightarrow> real \<Rightarrow> error + ('t cell list \<times> real)" where
  "enc_tower_scales cfg cell_fn enc_comb_fn [] tower mult = Inr (tower, mult)"
| "enc_tower_scales cfg cell_fn enc_comb_fn (s # ss) tower mult =
     (case nth_err (groups_per_scale cfg) s of
        Inl e \<Rightarrow> Inl e
      | Inr n_groups \<Rightarrow>
         (let tower1 = enc_tower_groups cfg cell_fn enc_comb_fn s n_groups mult
                         (py_range n_groups) tower
          in if int s < num_latent_scales cfg - 1
             then enc_tower_scales cfg cell_fn enc_comb_fn ss
                    (tower1
                     @ [Cell ''down_enc''
                          (cell_fn ''down_enc''
                             (py_int (real_of_int (num_channels_enc cfg) * mult))
                             (py_int (CHANNEL_MULT
                                      * real_of_int (py_int (real_of_int (num_channels_enc cfg) * mult)))))])
                    (CHANNEL_MULT * mult)
             else enc_tower_scales cfg cell_fn enc_comb_fn ss tower1 mult))"

definition init_encoder_tower ::
  "config \<Rightarrow> (string \<Rightarrow> int \<Rightarrow> int \<Rightarrow> 't \<Rightarrow> error + 't) \<Rightarrow> (int \<Rightarrow> int \<Rightarrow> int \<Rightarrow> 't \<Rightarrow> 't \<Rightarrow> error + 't)
   \<Rightarrow> real \<Rightarrow> error + ('t cell list \<times> real)" where
  "init_encoder_tower cfg cell_fn enc_comb_fn mult =
     enc_tower_scales cfg cell_fn enc_comb_fn (py_range (num_latent_scales cfg)) [] mult"

text \<open>
  \<open>init_decoder_tower\<close>: the scales are taken from the last to the first
  (\<open>groups_per_scale[num_latent_scales - s - 1]\<close>); every group ends with a combiner
  cell, and every group but the very first starts with its \<open>normal_dec\<close> cells.
\<close>

fun dec_tower_groups ::
  "config \<Rightarrow> (string \<Rightarrow> int \<Rightarrow> int \<Rightarrow> 't \<Rightarrow> error + 't) \<Rightarrow> (int \<Rightarrow> int \<Rightarrow> int \<Rightarrow> 't \<Rightarrow> 't \<Rightarrow> error + 't)
   \<Rightarrow> nat \<Rightarrow> real \<Rightarrow> nat list \<Rightarrow> 't cell list \<Rightarrow> 't cell list" where
  "dec_tower_groups cfg cell_fn dec_comb_fn s mult [] tower = tower"
| "dec_tower_groups cfg cell_fn dec_comb_fn s mult (g # gs) tower =
     (let num_c = py_int (real_of_int (num_channels_dec cfg) * mult);
          tower1 =
            (if \<not> (s = 0 \<and> g = 0)
             then tower
                  @ map (\<lambda>c. Cell ''normal_dec'' (cell_fn ''normal_dec'' num_c num_c))
                        (py_range (num_cell_per_cond_dec cfg))
             else tower);
          tower2 = tower1
                   @ [CombinerCell ''combiner_dec''
                        (dec_comb_fn num_c (num_latent_per_group cfg) num_c)]
      in dec_tower_groups cfg cell_fn dec_comb_fn s mult gs tower2)"

fun dec_tower_scales ::
  "config \<Rightarrow> (string \<Rightarrow> int \<Rightarrow> int \<Rightarrow> 't \<Rightarrow> error + 't) \<Rightarrow> (int \<Rightarrow> int \<Rightarrow> int \<Rightarrow> 't \<Rightarrow> 't \<Rightarrow> error + 't)
   \<Rightarrow> nat list \<Rightarrow> 't cell list \<Rightarrow> real \<Rightarrow> error + ('t cell list \<times> real)" where
  "dec_tower_scales cfg cell_fn dec_comb_fn [] tower mult = Inr (tower, mult)"
| "dec_tower_scales cfg cell_fn dec_comb_fn (s # ss) tower mult =
     (case nth_err (groups_per_scale cfg) (nat (num_latent_scales cfg - int s - 1)) of
        Inl e \<Rightarrow> Inl e
      | Inr n_groups \<Rightarrow>
         (let tower1 = dec_tower_groups cfg cell_fn dec_comb_fn s mult (py_range n_groups)
                         tower
          in if int s < num_latent_scales cfg - 1
             then dec_tower_scales cfg cell_fn dec_comb_fn ss
                    (tower1
                     @ [Cell ''up_dec''
                          (cell_fn ''up_dec''
                             (py_int (real_of_int (num_channels_dec cfg) * mult))
                             (py_int (real_of_int (py_int (real_of_int (num_channels_dec cfg) * mult))
                                      / CHANNEL_MULT)))])
                    (mult / CHANNEL_MULT)
             else dec_tower_scales cfg cell_fn dec_comb_fn ss tower1 mult))"

definition init_decoder_tower ::
  "config \<Rightarrow> (string \<Rightarrow> int \<Rightarrow> int \<Rightarrow> 't \<Rightarrow> error + 't) \<Rightarrow> (int \<Rightarrow> int \<Rightarrow> int \<Rightarrow> 't \<Rightarrow> 't \<Rightarrow> error + 't)
   \<Rightarrow> real \<Rightarrow> error + ('t cell list \<times> real)" where
  "init_decoder_tower cfg cell_fn dec_comb_fn mult =
     dec_tower_scales cfg cell_fn dec_comb_fn (py_range (num_latent_scales cfg)) [] mult"

subsection \<open>The samplers and the flow cells\<close>

text \<open>
  \<open>init_normal_sampler\<close>, lines 261-283: for every latent group one posterior sampler,
  \<open>self.num_flows\<close> flow cells (each a \<open>PairedCellAR\<close>) and, but for the very first
  group, one prior sampler. \<open>enc_fn\<close> and \<open>dec_fn\<close> give the forward functions of the
  samplers, which are built from \<open>Conv1D\<close>; \<open>w\<close> and \<open>b\<close> give the weights and biases
  drawn for the flow cell that is built next.
\<close>

fun sampler_flows ::
  "(nat \<Rightarrow> nat \<Rightarrow> real list list list) \<Rightarrow> (nat \<Rightarrow> nat \<Rightarrow> real list) \<Rightarrow> config \<Rightarrow> bool \<Rightarrow> real
   \<Rightarrow> nat list \<Rightarrow> PairedCellAR list \<Rightarrow> error + PairedCellAR list" where
  "sampler_flows w b cfg cp mult [] flows = Inr flows"
| "sampler_flows w b cfg cp mult (n # ns) flows =
     (case PairedCellAR_init (w (length flows)) (b (length flows)) (num_latent_per_group cfg)
             (py_int (real_of_int (num_channels_enc cfg) * mult))
             (8 * num_latent_per_group cfg) cp of
        Inl e \<Rightarrow> Inl e
      | Inr cell \<Rightarrow> sampler_flows w b cfg cp mult ns (flows @ [cell]))"

fun sampler_groups ::
  "(nat \<Rightarrow> nat \<Rightarrow> real list list list) \<Rightarrow> (nat \<Rightarrow> nat \<Rightarrow> real list) \<Rightarrow> config \<Rightarrow> int \<Rightarrow> bool
   \<Rightarrow> (int \<Rightarrow> int \<Rightarrow> 't \<Rightarrow> error + 't) \<Rightarrow> (int \<Rightarrow> int \<Rightarrow> 't \<Rightarrow> error + 't) \<Rightarrow> nat \<Rightarrow> real \<Rightarrow> nat list
   \<Rightarrow> ('t \<Rightarrow> error + 't) list \<times> ('t \<Rightarrow> error + 't) list \<times> PairedCellAR list
   \<Rightarrow> error + (('t \<Rightarrow> error + 't) list \<times> ('t \<Rightarrow> error + 't) list \<times> PairedCellAR list)" where
  "sampler_groups w b cfg n_flows cp enc_fn dec_fn s mult [] acc = Inr acc"
| "sampler_groups w b cfg n_flows cp enc_fn dec_fn s mult (g # gs) (enc_smp, dec_smp, flows) =
     (let enc_smp1 = enc_smp
                     @ [enc_fn (py_int (real_of_int (num_channels_enc cfg) * mult))
                               (2 * num_latent_per_group cfg)]
      in case sampler_flows w b cfg cp mult (py_range n_flows) flows of
           Inl e \<Rightarrow> Inl e
         | Inr flows1 \<Rightarrow>
            sampler_groups w b cfg n_flows cp enc_fn dec_fn s mult gs
              (enc_smp1,
               (if \<not> (s = 0 \<and> g = 0)
                then dec_smp
                     @ [dec_fn (py_int (real_of_int (num_channels_dec cfg) * mult))
                               (2 * num_latent_per_group cfg)]
                else dec_smp),
               flows1))"

fun sampler_scales ::
  "(nat \<Rightarrow> nat \<Rightarrow> real list list list) \<Rightarrow> (nat \<Rightarrow> nat \<Rightarrow> real list) \<Rightarrow> config \<Rightarrow> int \<Rightarrow> bool
   \<Rightarrow> (int \<Rightarrow> int \<Rightarrow> 't \<Rightarrow> error + 't) \<Rightarrow> (int \<Rightarrow> int \<Rightarrow> 't \<Rightarrow> error + 't) \<Rightarrow> nat list \<Rightarrow> real
   \<Rightarrow> ('t \<Rightarrow> error + 't) list \<times> ('t \<Rightarrow> error + 't) list \<times> PairedCellAR list
   \<Rightarrow> error + (('t \<Rightarrow> error + 't) list \<times> ('t \<Rightarrow> error + 't) list \<times> PairedCellAR list)" where
  "sampler_scales w b cfg n_flows cp enc_fn dec_fn [] mult acc = Inr acc"
| "sampler_scales w b cfg n_flows cp enc_fn dec_fn (s # ss) mult acc =
     (case nth_err (groups_per_scale cfg) (nat (num_latent_scales cfg - int s - 1)) of
        Inl e \<Rightarrow> Inl e
      | Inr n_groups \<Rightarrow>
         (case sampler_groups w b cfg n_flows cp enc_fn dec_fn s mult (py_range n_groups) acc of
            Inl e \<Rightarrow> Inl e
          | Inr acc1 \<Rightarrow>
             sampler_scales w b cfg n_flows cp enc_fn dec_fn ss (mult / CHANNEL_MULT) acc1))"

definition init_normal_sampler ::
  "(nat \<Rightarrow> nat \<Rightarrow> real list list list) \<Rightarrow> (nat \<Rightarrow> nat \<Rightarrow> real list) \<Rightarrow> config \<Rightarrow> int \<Rightarrow> bool
   \<Rightarrow> (int \<Rightarrow> int \<Rightarrow> 't \<Rightarrow> error + 't) \<Rightarrow> (int \<Rightarrow> int \<Rightarrow> 't \<Rightarrow> error + 't) \<Rightarrow> real
   \<Rightarrow> error + (('t \<Rightarrow> error + 't) list \<times> ('t \<Rightarrow> error + 't) list \<times> PairedCellAR list)" where
  "init_normal_sampler w b cfg n_flows cp enc_fn dec_fn mult =
     sampler_scales w b cfg n_flows cp enc_fn dec_fn (py_range (num_latent_scales cfg)) mult
       ([], [], [])"

section \<open>Example objects\<close>

text \<open>
  Objects with the attributes that the constructors assign, used where a theorem is
  evaluated at a concrete input. \<open>shaped_conv1\<close> and \<open>shaped_conv2\<close> are the two
  convolutions of \<open>ARInvertedResidual(1, n_inf, ex=2)\<close> as lines 163-167 and
  \<open>ARConv1d.__init__\<close> shape them (stride 1, causal, \<open>'SAME'\<close>, the default
  \<open>bias=False\<close>, the padding of line 95, the log weight norm of line 103) for drawn
  weights with the last tap 1 and the other taps 0; \<open>shaped_block\<close> is the block.
\<close>

definition shaped_conv1 :: ARConv1d where
  "shaped_conv1 = \<lparr> weight = [[[0, 0, 1]], [[0, 0, 1]]], bias = None, stride = 1,
                    padding = 2, dilation = 1, groups = 1, causal = True, mode = ''SAME'',
                    log_weight_norm = [ln (1 + 1 / 100), ln (1 + 1 / 100)] \<rparr>"

definition shaped_conv2 :: ARConv1d where
  "shaped_conv2 = \<lparr> weight = [[[0, 0, 0, 0, 1]], [[0, 0, 0, 0, 1]]], bias = None,
                    stride = 1, padding = 4, dilation = 1, groups = 2, causal = True,
                    mode = ''SAME'', log_weight_norm = [ln (1 + 1 / 100), ln (1 + 1 / 100)] \<rparr>"

definition shaped_block :: "bool \<Rightarrow> ARInvertedResidual" where
  "shaped_block cp = \<lparr> checkpoint_res = cp,
                       layers = [Conv shaped_conv1, ELU, Conv shaped_conv2, ELU],
                       hidden_dim = 2 \<rparr>"

text \<open>
  \<open>shaped_proj\<close> is the projection \<open>self.mu\<close> of a \<open>CellAR\<close> over that block, as
  \<open>ELUConv.__init__\<close> shapes it (kernel size 1, \<open>bias=True\<close>, the log weight norm moved
  by \<open>log 0.1\<close>); \<open>shaped_cell\<close> and \<open>shaped_pair\<close> are the cell and the pair of cells.
\<close>

definition shaped_proj :: ELUConv where
  "shaped_proj = \<lparr> elu_checkpoint_res = False,
                   conv_0 = \<lparr> weight = [[[1], [0]]], bias = Some [0], stride = 1,
                              padding = 0, dilation = 1, groups = 1, causal = True,
                              mode = ''SAME'',
                              log_weight_norm = [ln (1 + 1 / 100) + ln (1 / 10)] \<rparr> \<rparr>"

definition shaped_cell :: CellAR where
  "shaped_cell = \<lparr> conv = shaped_block False, use_mix_log_cdf = False, param = None,
                   mu = Some shaped_proj \<rparr>"

definition shaped_pair :: PairedCellAR where
  "shaped_pair = \<lparr> cell1 = shaped_cell, cell2 = shaped_cell \<rparr>"

text \<open>
  \<open>biased_conv\<close> is the convolution of \<open>ELUConv(1, 2, 3, causal=True)\<close>, which
  \<open>ELUConv.__init__\<close> builds with \<open>bias=True\<close>.
\<close>

definition biased_conv :: ARConv1d where
  "biased_conv = \<lparr> weight = [[[0, 0, 1]], [[0, 0, 1]]], bias = Some [0, 0], stride = 1,
                   padding = 2, dilation = 1, groups = 1, causal = True, mode = ''SAME'',
                   log_weight_norm = [ln (1 + 1 / 100) + ln 1, ln (1 + 1 / 100) + ln 1] \<rparr>"

text \<open>
  A small model over integer tensors with three latent scales of one group each and no
  flows. Its towers are the ones that \<open>init_encoder_tower\<close> and \<open>init_decoder_tower\<close>
  build for simple stand-ins of the imported cells: a cell adds its number of input
  channels to the stream, an encoder combiner adds its two streams and ten times its
  number of channels, a decoder combiner adds the latent to the stream.
\<close>

definition ex_cfg :: config where
  "ex_cfg = \<lparr> num_latent_scales = 3, groups_per_scale = [1, 1, 1],
              num_cell_per_cond_enc = 1, num_cell_per_cond_dec = 1, num_channels_enc = 1,
              num_channels_dec = 1, num_latent_per_group = 1 \<rparr>"

definition ex_cell_fn :: "string \<Rightarrow> int \<Rightarrow> int \<Rightarrow> int \<Rightarrow> error + int" where
  "ex_cell_fn ct c_in c_out = (\<lambda>s. Inr (s + c_in))"

definition ex_enc_comb_fn :: "int \<Rightarrow> int \<Rightarrow> int \<Rightarrow> int \<Rightarrow> int \<Rightarrow> error + int" where
  "ex_enc_comb_fn c1 c2 c3 = (\<lambda>x1 x2. Inr (x1 + 10 * c1 + x2))"

definition ex_dec_comb_fn :: "int \<Rightarrow> int \<Rightarrow> int \<Rightarrow> int \<Rightarrow> int \<Rightarrow> error + int" where
  "ex_dec_comb_fn c1 c2 c3 = (\<lambda>s z. Inr (s + z))"

definition ex_lib :: "(int, int \<times> int) lib" where
  "ex_lib = \<lparr> Normal = (\<lambda>m sg. (m, sg)), sample = (\<lambda>d e. fst d + e),
              log_p = (\<lambda>d z. z - fst d), kl = (\<lambda>q p. fst q - fst p),
              chunk = (\<lambda>t. (t, t + 1)), zeros_like_t = (\<lambda>_. 0), expand = (\<lambda>p z. p) \<rparr>"

definition ex_comb1 :: "int cell" where
  "ex_comb1 = CombinerCell ''combiner_enc'' (ex_enc_comb_fn 1 1 1)"

definition ex_comb2 :: "int cell" where
  "ex_comb2 = CombinerCell ''combiner_enc'' (ex_enc_comb_fn 2 2 2)"

definition ex_enc_tower :: "int cell list" where
  "ex_enc_tower =
     [Cell ''normal_enc'' (ex_cell_fn ''normal_enc'' 1 1), ex_comb1,
      Cell ''down_enc'' (ex_cell_fn ''down_enc'' 1 2),
      Cell ''normal_enc'' (ex_cell_fn ''normal_enc'' 2 2), ex_comb2,
      Cell ''down_enc'' (ex_cell_fn ''down_enc'' 2 4),
      Cell ''normal_enc'' (ex_cell_fn ''normal_enc'' 4 4)]"

definition ex_dec_tower :: "int cell list" where
  "ex_dec_tower =
     [CombinerCell ''combiner_dec'' (ex_dec_comb_fn 4 1 4),
      Cell ''up_dec'' (ex_cell_fn ''up_dec'' 4 2),
      Cell ''normal_dec'' (ex_cell_fn ''normal_dec'' 2 2),
      CombinerCell ''combiner_dec'' (ex_dec_comb_fn 2 1 2),
      Cell ''up_dec'' (ex_cell_fn ''up_dec'' 2 1),
      Cell ''normal_dec'' (ex_cell_fn ''normal_dec'' 1 1),
      CombinerCell ''combiner_dec'' (ex_dec_comb_fn 1 1 1)]"

definition ex_model :: "(int, int \<times> int) AutoEncoder" where
  "ex_model =
     \<lparr> enc_tower = ex_enc_tower, dec_tower = ex_dec_tower,
       enc0 = (\<lambda>s. Inr s),
       enc_sampler = [\<lambda>x. Inr x, \<lambda>x. Inr x, \<lambda>x. Inr x],
       dec_sampler = [\<lambda>x. Inr x, \<lambda>x. Inr x],
       nf_cells = [],
       num_flows = 0, with_nf = False, res_dist = True, prior_ftr0 = 0 \<rparr>"

text \<open>The configuration of one scale with one group.\<close>

definition one_group_cfg :: config where
  "one_group_cfg = \<lparr> num_latent_scales = 1, groups_per_scale = [1], num_cell_per_cond_enc = 1,
                     num_cell_per_cond_dec = 1, num_channels_enc = 1, num_channels_dec = 1,
                     num_latent_per_group = 1 \<rparr>"

section \<open>Theorems\<close>

subsection \<open>Weight-decay-norm annealing\<close>

lemma wdn_coeff_fails_iff:
  "isl (wdn_coeff a k) \<longleftrightarrow>
     weight_decay_norm_anneal a \<and> (weight_decay_norm_init a \<le> 0 \<or> weight_decay_norm a \<le> 0)"
  by (auto simp: wdn_coeff_def)

text \<open>
  Claim C10. The weight-decay-norm coefficient fails, with the assertion of line 509,
  exactly when annealing is requested and the initial or the final endpoint is not
  positive. With annealing and two positive endpoints the coefficient is
  \<open>exp ((1 - kl_coeff) * ln init + kl_coeff * ln final)\<close>; without annealing it is the
  configured final value.
\<close>

theorem wdn_coeff_spec:
  "(isl (wdn_coeff a k) \<longleftrightarrow>
      weight_decay_norm_anneal a \<and>
      (weight_decay_norm_init a \<le> 0 \<or> weight_decay_norm a \<le> 0))
   \<and> (isl (wdn_coeff a k) \<longrightarrow>
        wdn_coeff a k = Inl (AssertionError ''init and final wdn should be positive.''))
   \<and> (weight_decay_norm_anneal a \<and> 0 < weight_decay_norm_init a \<and> 0 < weight_decay_norm a \<longrightarrow>
        wdn_coeff a k =
          Inr (exp ((1 - k) * ln (weight_decay_norm_init a) + k * ln (weight_decay_norm a))))
   \<and> (\<not> weight_decay_norm_anneal a \<longrightarrow> wdn_coeff a k = Inr (weight_decay_norm a))"
  by (auto simp: wdn_coeff_def)

theorem wdn_coeff_spec_witness:
  "wdn_coeff \<lparr> weight_decay_norm_anneal = True, weight_decay_norm_init = 1,
               weight_decay_norm = 1 \<rparr> (1 / 2) = Inr 1
   \<and> wdn_coeff \<lparr> weight_decay_norm_anneal = True, weight_decay_norm_init = 0,
                 weight_decay_norm = 1 \<rparr> (1 / 2)
       = Inl (AssertionError ''init and final wdn should be positive.'')
   \<and> wdn_coeff \<lparr> weight_decay_norm_anneal = False, weight_decay_norm_init = 0,
                 weight_decay_norm = 3 \<rparr> (1 / 2) = Inr 3"
proof -
  have a: "wdn_coeff \<lparr> weight_decay_norm_anneal = True, weight_decay_norm_init = 1,
               weight_decay_norm = 1 \<rparr> (1 / 2) = Inr 1"
    using wdn_coeff_spec [of "\<lparr> weight_decay_norm_anneal = True, weight_decay_norm_init = 1,
                             weight_decay_norm = 1 \<rparr>" "1 / 2"] by simp
  have b: "wdn_coeff \<lparr> weight_decay_norm_anneal = True, weight_decay_norm_init = 0,
                 weight_decay_norm = 1 \<rparr> (1 / 2)
       = Inl (AssertionError ''init and final wdn should be positive.'')"
    using wdn_coeff_spec [of "\<lparr> weight_decay_norm_anneal = True, weight_decay_norm_init = 0,
                             weight_decay_norm = 1 \<rparr>" "1 / 2"] by simp
  have c: "wdn_coeff \<lparr> weight_decay_norm_anneal = False, weight_decay_norm_init = 0,
                 weight_decay_norm = 3 \<rparr> (1 / 2) = Inr 3"
    using wdn_coeff_spec [of "\<lparr> weight_decay_norm_anneal = False, weight_decay_norm_init = 0,
                             weight_decay_norm = 3 \<rparr>" "1 / 2"] by simp
  show ?thesis using a b c by simp
qed

subsection \<open>No autoregressive layer can be constructed\<close>

lemma Cin_unbound: "load_name ARConv1d_init_locals ''Cin'' = Inl (NameError ''Cin'')"
  by (simp add: load_name_def ARConv1d_init_locals_def module_globals_def builtin_names_def)

lemma ARConv1d_init_raises:
  "ARConv1d_init w0 b0 C_in C_out kernel_size strd pad dil grp use_bias csl md =
     (if grp \<le> 0 \<or> C_in mod grp \<noteq> 0 \<or> C_out mod grp \<noteq> 0 then Inl ValueError
      else Inl (NameError ''Cin''))"
  by (simp add: ARConv1d_init_def nn_Conv1d_init_def Cin_unbound)

text \<open>
  Claim C3. Constructing an \<open>ARConv1d\<close> raises for every argument list: when the base
  constructor accepts the arguments, line 90 raises \<open>NameError\<close> for the unbound name
  \<open>Cin\<close> (so the \<open>.type()\<close> call on a \<open>None\<close> bias in line 91 is never reached). The
  constructors of \<open>ELUConv\<close> and \<open>ARInvertedResidual\<close> build an \<open>ARConv1d\<close> first and
  raise with it.
\<close>

theorem ARConv1d_never_constructed:
  "isl (ARConv1d_init w0 b0 C_in C_out kernel_size strd pad dil grp use_bias csl md)
   \<and> ARConv1d_init w0 b0 C_in C_out kernel_size strd pad dil grp use_bias csl md
       \<in> {Inl ValueError, Inl (NameError ''Cin'')}
   \<and> isl (ELUConv_init w0 b0 C_in C_out kernel_size pad dil csl md coeff cp)
   \<and> isl (ARInvertedResidual_init w1 b1 w2 b2 inz n_inf ex dil k md cp)"
  by (simp add: ARConv1d_init_raises ELUConv_init_def ARInvertedResidual_init_def Let_def)

subsection \<open>Tensor arithmetic on equal shapes\<close>

lemma dims_is_tensor: "is_tensor c l a \<Longrightarrow> dims a = (c, if c = 0 then 0 else l)"
  by (cases a) (auto simp: is_tensor_def dims_def)

lemma is_tensor_map2:
  "is_tensor c l a \<Longrightarrow> is_tensor c l b \<Longrightarrow> is_tensor c l (map2 (map2 f) a b)"
  by (auto simp: is_tensor_def set_zip)

lemma tensor_binop_same_shape:
  assumes "is_tensor c l a" and "is_tensor c l b"
  shows "tensor_binop f a b = Inr (map2 (map2 f) a b)"
proof -
  have la: "length a = c" and lb: "length b = c"
    using assms by (auto simp: is_tensor_def)
  have rows: "map2 (\<lambda>ra rb. map2 f (bcast_to (if c = 0 then 0 else l) ra)
                                   (bcast_to (if c = 0 then 0 else l) rb)) a b
        = map2 (map2 f) a b"
  proof (rule map_cong[OF refl])
    fix p assume mem: "p \<in> set (zip a b)"
    obtain ra rb where p: "p = (ra, rb)"
      by (cases p)
    with mem have "ra \<in> set a" and "rb \<in> set b"
      by (auto dest: set_zip_leftD set_zip_rightD)
    then have "length ra = l" "length rb = l" "c \<noteq> 0"
      using assms by (auto simp: is_tensor_def)
    then show "(case p of (ra, rb) \<Rightarrow> map2 f (bcast_to (if c = 0 then 0 else l) ra)
                                             (bcast_to (if c = 0 then 0 else l) rb))
         = (case p of (ra, rb) \<Rightarrow> map2 f ra rb)"
      by (simp add: p bcast_to_def)
  qed
  show ?thesis
    using rows
    by (simp add: tensor_binop_def dims_is_tensor[OF assms(1)] dims_is_tensor[OF assms(2)]
        bdim_def bcast_to_def la lb)
qed

lemma is_tensor_zeros_like: "is_tensor c l a \<Longrightarrow> is_tensor c l (zeros_like a)"
  by (auto simp: is_tensor_def zeros_like_def)

lemma zeros_add_zeros:
  "is_tensor c l a \<Longrightarrow> is_tensor c l b \<Longrightarrow>
   map2 (map2 (+)) (zeros_like a) (zeros_like b) = zeros_like a"
  unfolding zeros_like_def is_tensor_def
  apply (rule nth_equalityI)
   apply simp
  apply (rule nth_equalityI)
   apply simp
  apply simp
  done

lemma tensor_iadd_zeros:
  assumes "is_tensor c l a" and "is_tensor c l b"
  shows "tensor_iadd (zeros_like a) (zeros_like b) = Inr (zeros_like a)"
  using assms
  by (simp add: tensor_iadd_def
      tensor_binop_same_shape[OF is_tensor_zeros_like is_tensor_zeros_like] zeros_add_zeros)

subsection \<open>The recompute-on-backward branch of \<open>ARInvertedResidual.forward\<close>\<close>

text \<open>
  A block whose first layer is a convolution without a bias, as lines 163-167 of
  \<open>ARInvertedResidual.__init__\<close> assign it, raises in both branches.
\<close>

lemma ARInvertedResidual_forward_no_bias:
  assumes "layers r = Conv c # ls" and "bias c = None"
  shows "ARInvertedResidual_forward r z ftr = Inl (AttributeError ''type_as'')"
  using assms
  by (simp add: ARInvertedResidual_forward_def checkpoint_def ARConv1d_forward_def)

text \<open>
  No block can be constructed, whatever the flag: both constructor calls raise the
  \<open>NameError\<close> of \<open>ARConv1d.__init__\<close>.
\<close>

lemma ARInvertedResidual_init_NameError:
  "ARInvertedResidual_init w1 b1 w2 b2 inz n_inf ex dil k md cp = Inl (NameError ''Cin'')"
  by (simp add: ARInvertedResidual_init_def ARConv1d_init_raises Let_def)



subsection \<open>The flow cells\<close>

text \<open>
  Claim C2. The pair \<open>(new_z, log_det)\<close> that \<open>CellAR.forward\<close> returns, or the
  exception it raises, does not depend on the conditioning features \<open>ftr\<close>: they are
  passed to \<open>ARInvertedResidual.forward\<close> only, which never uses them.
\<close>

theorem CellAR_forward_ignores_ftr: "CellAR_forward c z ftr = CellAR_forward c z ftr'"
  by (simp add: CellAR_forward_def ARInvertedResidual_forward_def)

lemma CellAR_forward_affine:
  assumes "\<not> use_mix_log_cdf c" and "CellAR_shift c z ftr = Inr m"
    and "is_tensor n l z" and "is_tensor n l m"
  shows "CellAR_forward c z ftr = Inr (map2 (map2 (-)) z m, zeros_like (map2 (map2 (-)) z m))"
  using assms(1,2)
  by (auto simp: CellAR_forward_def CellAR_shift_def tensor_sub_def
      tensor_binop_same_shape[OF assms(3,4)] split: sum.splits option.splits)

text \<open>
  The affine pair: when the first cell computes the shift \<open>m1\<close> from \<open>z\<close> and the second
  the shift \<open>m2\<close> from \<open>z - m1\<close>, both of the shape of \<open>z\<close>, the pair returns
  \<open>z - m1 - m2\<close> and a log-determinant of zeros.
\<close>

lemma PairedCellAR_forward_affine:
  assumes "\<not> use_mix_log_cdf (cell1 p)" and "\<not> use_mix_log_cdf (cell2 p)"
    and "is_tensor n l z"
    and "CellAR_shift (cell1 p) z ftr = Inr m1" and "is_tensor n l m1"
    and "CellAR_shift (cell2 p) (map2 (map2 (-)) z m1) ftr = Inr m2" and "is_tensor n l m2"
  shows "PairedCellAR_forward p z ftr
           = Inr (map2 (map2 (-)) (map2 (map2 (-)) z m1) m2, zeros_like z)
         \<and> (\<forall>row \<in> set (zeros_like z). \<forall>v \<in> set row. v = 0)"
proof -
  let ?z1 = "map2 (map2 (-)) z m1"
  let ?z2 = "map2 (map2 (-)) ?z1 m2"
  have t1: "is_tensor n l ?z1" by (rule is_tensor_map2[OF assms(3,5)])
  have t2: "is_tensor n l ?z2" by (rule is_tensor_map2[OF t1 assms(7)])
  have f1: "CellAR_forward (cell1 p) z ftr = Inr (?z1, zeros_like ?z1)"
    by (rule CellAR_forward_affine[OF assms(1,4,3,5)])
  have f2: "CellAR_forward (cell2 p) ?z1 ftr = Inr (?z2, zeros_like ?z2)"
    by (rule CellAR_forward_affine[OF assms(2,6) t1 assms(7)])
  have zl: "zeros_like ?z1 = zeros_like z"
    using assms(3,5) unfolding zeros_like_def is_tensor_def
    by (intro nth_equalityI) simp_all
  have "PairedCellAR_forward p z ftr = Inr (?z2, zeros_like ?z1)"
    by (simp add: PairedCellAR_forward_def f1 f2 tensor_iadd_zeros[OF t1 t2])
  then have "PairedCellAR_forward p z ftr = Inr (?z2, zeros_like z)"
    by (simp only: zl)
  moreover have "\<forall>row \<in> set (zeros_like z). \<forall>v \<in> set row. v = 0"
    by (auto simp: zeros_like_def)
  ultimately show ?thesis by blast
qed

lemma CellAR_init_raises:
  "CellAR_init w b n_z num_ftr num_c cp =
     (if n_z = 0 then Inl ZeroDivisionError
      else if num_c mod n_z \<noteq> 0 then Inl (AssertionError '''')
      else Inl (NameError ''Cin''))"
  by (simp add: CellAR_init_def py_mod_def ARInvertedResidual_init_NameError)

lemma PairedCellAR_init_raises:
  "PairedCellAR_init w b n_z num_ftr num_c cp =
     (if n_z = 0 then Inl ZeroDivisionError
      else if num_c mod n_z \<noteq> 0 then Inl (AssertionError '''')
      else Inl (NameError ''Cin''))"
  by (simp add: PairedCellAR_init_def CellAR_init_raises)

lemma PairedCellAR_forward_shaped:
  assumes "layers (conv (cell1 p)) = Conv c # ls" and "bias c = None"
  shows "PairedCellAR_forward p z ftr = Inl (AttributeError ''type_as'')"
  by (simp add: PairedCellAR_forward_def CellAR_forward_def
      ARInvertedResidual_forward_no_bias[OF assms])

text \<open>
  Claim C7. The specification asks that a \<open>PairedCellAR\<close> returns \<open>z - m1 - m2\<close> and a
  zero log-determinant. The code returns nothing: constructing a pair raises for every
  argument list (\<open>NameError\<close> of \<open>ARConv1d.__init__\<close>, when the assertion of
  \<open>CellAR.__init__\<close> passes), and on a pair with the layers that the constructors assign
  the forward pass raises \<open>AttributeError\<close> for every \<open>z\<close> and \<open>ftr\<close>, in the first
  convolution of the first cell, which has no bias.
\<close>

theorem PairedCellAR_raises:
  "construct_and_call (PairedCellAR_init w b n_z num_ftr num_c cp)
       (\<lambda>p. PairedCellAR_forward p z ftr)
     = (if n_z = 0 then Inl ZeroDivisionError
        else if num_c mod n_z \<noteq> 0 then Inl (AssertionError '''')
        else Inl (NameError ''Cin''))
   \<and> (\<forall>c ls. layers (conv (cell1 p)) = Conv c # ls \<and> bias c = None \<longrightarrow>
         PairedCellAR_forward p z ftr = Inl (AttributeError ''type_as''))"
  by (simp add: construct_and_call_def PairedCellAR_init_raises PairedCellAR_forward_shaped)

theorem PairedCellAR_raises_witness:
  "construct_and_call (PairedCellAR_init (\<lambda>i. []) (\<lambda>i. []) 1 1 8 False)
       (\<lambda>p. PairedCellAR_forward p [[1, 2, 3]] [[0]]) = Inl (NameError ''Cin'')
   \<and> PairedCellAR_forward shaped_pair [[1, 2, 3]] [[0]] = Inl (AttributeError ''type_as'')"
proof -
  have h: "layers (conv (cell1 shaped_pair)) = Conv shaped_conv1 # [ELU, Conv shaped_conv2, ELU]
           \<and> bias shaped_conv1 = None"
    by (simp add: shaped_pair_def shaped_cell_def shaped_block_def shaped_conv1_def)
  note t = PairedCellAR_raises [of "\<lambda>i. []" "\<lambda>i. []" 1 1 8 False "[[1, 2, 3]]" "[[0]]" shaped_pair]
  have a: "construct_and_call (PairedCellAR_init (\<lambda>i. []) (\<lambda>i. []) 1 1 8 False)
       (\<lambda>p. PairedCellAR_forward p [[1, 2, 3]] [[0]]) = Inl (NameError ''Cin'')"
    using t [THEN conjunct1] by simp
  have b: "PairedCellAR_forward shaped_pair [[1, 2, 3]] [[0]] = Inl (AttributeError ''type_as'')"
    using t [THEN conjunct2, rule_format, OF h] .
  show ?thesis using a b by (rule conjI)
qed

subsection \<open>\<open>ARConv1d.forward\<close> without a bias\<close>

text \<open>
  Claim C4. The specification asks that every causal \<open>ARConv1d\<close> in \<open>'SAME'\<close> mode with
  stride 1 returns an output as long as its input, with no dependence on later input
  positions. The code returns nothing: constructing the layer raises for every argument
  list, and on a layer without a bias (the default \<open>bias=False\<close>, which
  \<open>ARInvertedResidual\<close> uses) line 123 calls \<open>.type_as(x)\<close> on \<open>None\<close>, so that the
  forward pass raises \<open>AttributeError\<close> for every input.
\<close>

theorem ARConv1d_raises:
  "construct_and_call
       (ARConv1d_init w0 b0 C_in C_out kernel_size strd pad dil grp use_bias csl md)
       (\<lambda>c. ARConv1d_forward c x)
     = (if grp \<le> 0 \<or> C_in mod grp \<noteq> 0 \<or> C_out mod grp \<noteq> 0 then Inl ValueError
        else Inl (NameError ''Cin''))
   \<and> (bias c = None \<longrightarrow> ARConv1d_forward c x = Inl (AttributeError ''type_as''))"
  by (simp add: construct_and_call_def ARConv1d_init_raises ARConv1d_forward_def)

theorem ARConv1d_raises_witness:
  "construct_and_call
       (ARConv1d_init [[[0, 0, 1]], [[0, 0, 1]]] [] 1 2 3 1 0 1 1 False True ''SAME'')
       (\<lambda>c. ARConv1d_forward c [[1, 2, 3]]) = Inl (NameError ''Cin'')
   \<and> ARConv1d_forward shaped_conv1 [[1, 2, 3]] = Inl (AttributeError ''type_as'')"
proof -
  have h: "bias shaped_conv1 = None" by (simp add: shaped_conv1_def)
  note t = ARConv1d_raises [of "[[[0, 0, 1]], [[0, 0, 1]]]" "[]" 1 2 3 1 0 1 1 False True
      "''SAME''" "[[1, 2, 3]]" shaped_conv1]
  have a: "construct_and_call
       (ARConv1d_init [[[0, 0, 1]], [[0, 0, 1]]] [] 1 2 3 1 0 1 1 False True ''SAME'')
       (\<lambda>c. ARConv1d_forward c [[1, 2, 3]]) = Inl (NameError ''Cin'')"
    using t [THEN conjunct1] by simp
  have b: "ARConv1d_forward shaped_conv1 [[1, 2, 3]] = Inl (AttributeError ''type_as'')"
    using t [THEN conjunct2, rule_format, OF h] .
  show ?thesis using a b by (rule conjI)
qed

subsection \<open>\<open>ARConv1d.forward\<close> with a bias\<close>

text \<open>
  With a bias the forward pass of a causal layer pads by \<open>dilation * (k - 1)\<close> on both
  sides and crops that many positions from the right end.
\<close>

lemma normalize_weight_shape:
  "weight_shape w co ci k \<Longrightarrow> weight_shape (normalize_weight_jit lwn w) co ci k"
  apply (auto simp: weight_shape_def normalize_weight_jit_def in_set_enumerate_eq)
  apply (meson nth_mem)
  done

lemma weight_shape_heads:
  assumes "weight_shape w co ci k" and "0 < co" and "0 < ci"
  shows "(case w of [] \<Rightarrow> 0 | w_o # _ \<Rightarrow> length w_o) = ci"
    and "(case w of [] \<Rightarrow> 0 | w_o # _ \<Rightarrow> (case w_o of [] \<Rightarrow> 0 | w_c # _ \<Rightarrow> length w_c)) = k"
proof -
  obtain w_o ws where w: "w = w_o # ws"
    using assms by (cases w) (auto simp: weight_shape_def)
  then have l: "length w_o = ci" and r: "\<forall>w_c \<in> set w_o. length w_c = k"
    using assms(1) by (auto simp: weight_shape_def)
  then obtain w_c wcs where "w_o = w_c # wcs"
    using assms(3) by (cases w_o) auto
  with w l r show "(case w of [] \<Rightarrow> 0 | w_o # _ \<Rightarrow> length w_o) = ci"
    and "(case w of [] \<Rightarrow> 0 | w_o # _ \<Rightarrow> (case w_o of [] \<Rightarrow> 0 | w_c # _ \<Rightarrow> length w_c)) = k"
    by auto
qed

lemma F_conv1d_causal_padding:
  assumes sh: "weight_shape w co ci k" and pos: "0 < co" "0 < ci" "0 < k" "0 < g" "0 < d"
    and dv: "co mod g = 0" and lb: "length b = co"
    and tx: "is_tensor (g * ci) l x" and l: "0 < l"
  shows "F_conv1d x w b 1 (d * (k - 1)) d g =
           Inr (map (\<lambda>(oc, w_o).
                  map (conv1d_at x w_o (b ! oc) ((oc div (co div g)) * ci) 1 (d * (k - 1)) d)
                      [0..<l + d * (k - 1)])
                (enumerate 0 w))"
proof -
  have lw: "length w = co" using sh by (simp add: weight_shape_def)
  have lx: "length x = g * ci" using tx by (simp add: is_tensor_def)
  have dx: "snd (dims x) = l" using dims_is_tensor[OF tx] pos by simp
  have ol: "conv1d_out_len l k 1 (d * (k - 1)) d = l + d * (k - 1)"
    using l by (simp add: conv1d_out_len_def)
  show ?thesis
    unfolding F_conv1d_def Let_def weight_shape_heads[OF sh pos(1,2)] lw dx ol
    using pos dv lb lx l by simp
qed

lemma pad_get_causal:
  assumes "length xs = length ys" and "\<forall>m \<le> i. m < length xs \<longrightarrow> xs ! m = ys ! m"
    and "j \<le> i + p"
  shows "pad_get xs p j = pad_get ys p j"
  using assms by (auto simp: pad_get_def)

lemma conv1d_at_cong:
  assumes "\<forall>ch < length w_o. \<forall>kk < length (w_o ! ch).
             pad_get (x ! (base + ch)) p (t * s + kk * d)
               = pad_get (x' ! (base + ch)) p' (t * s + kk * d)"
  shows "conv1d_at x w_o bo base s p d t = conv1d_at x' w_o bo base s p' d t"
proof -
  have outer: "(\<lambda>(c, w_c). sum_list (map (\<lambda>(kk, v). v * pad_get (x ! (base + c)) p (t * s + kk * d)) (enumerate 0 w_c))) r
             = (\<lambda>(c, w_c). sum_list (map (\<lambda>(kk, v). v * pad_get (x' ! (base + c)) p' (t * s + kk * d)) (enumerate 0 w_c))) r"
    if r: "r \<in> set (enumerate 0 w_o)" for r
  proof -
    obtain ch w_c where rr: "r = (ch, w_c)" by (cases r)
    with r have ch: "ch < length w_o" and wc: "w_c = w_o ! ch"
      by (simp_all add: in_set_enumerate_eq)
    have "map (\<lambda>(kk, v). v * pad_get (x ! (base + ch)) p (t * s + kk * d)) (enumerate 0 w_c)
        = map (\<lambda>(kk, v). v * pad_get (x' ! (base + ch)) p' (t * s + kk * d)) (enumerate 0 w_c)"
    proof (rule map_cong[OF refl])
      fix q assume q: "q \<in> set (enumerate 0 w_c)"
      obtain kk v where qq: "q = (kk, v)" by (cases q)
      with q wc have "kk < length (w_o ! ch)" by (simp add: in_set_enumerate_eq)
      with assms ch have "pad_get (x ! (base + ch)) p (t * s + kk * d)
                        = pad_get (x' ! (base + ch)) p' (t * s + kk * d)"
        by blast
      then show "(case q of (kk, v) \<Rightarrow> v * pad_get (x ! (base + ch)) p (t * s + kk * d))
               = (case q of (kk, v) \<Rightarrow> v * pad_get (x' ! (base + ch)) p' (t * s + kk * d))"
        by (simp only: qq prod.case)
    qed
    then have "sum_list (map (\<lambda>(kk, v). v * pad_get (x ! (base + ch)) p (t * s + kk * d)) (enumerate 0 w_c))
        = sum_list (map (\<lambda>(kk, v). v * pad_get (x' ! (base + ch)) p' (t * s + kk * d)) (enumerate 0 w_c))"
      by (rule arg_cong)
    then show ?thesis by (simp only: rr prod.case)
  qed
  have "map (\<lambda>(c, w_c). sum_list (map (\<lambda>(kk, v). v * pad_get (x ! (base + c)) p (t * s + kk * d)) (enumerate 0 w_c))) (enumerate 0 w_o)
      = map (\<lambda>(c, w_c). sum_list (map (\<lambda>(kk, v). v * pad_get (x' ! (base + c)) p' (t * s + kk * d)) (enumerate 0 w_c))) (enumerate 0 w_o)"
    by (rule map_cong[OF refl]) (rule outer)
  then show ?thesis
    unfolding conv1d_at_def by (simp only:)
qed

lemma conv1d_at_causal:
  assumes k: "\<forall>w_c \<in> set w_o. length w_c = k"
    and agree: "\<forall>ch < length w_o. length (x ! (base + ch)) = length (x' ! (base + ch))
                 \<and> (\<forall>m \<le> i. m < length (x ! (base + ch)) \<longrightarrow>
                        x ! (base + ch) ! m = x' ! (base + ch) ! m)"
  shows "conv1d_at x w_o bo base 1 (d * (k - 1)) d i
       = conv1d_at x' w_o bo base 1 (d * (k - 1)) d i"
proof (rule conv1d_at_cong, intro allI impI)
  fix ch kk assume ch: "ch < length w_o" and kk: "kk < length (w_o ! ch)"
  have "length (w_o ! ch) = k" using k ch by simp
  with kk have "kk \<le> k - 1" by simp
  then have "kk * d \<le> d * (k - 1)" by (simp add: mult.commute)
  then have le: "i * 1 + kk * d \<le> i + d * (k - 1)" by simp
  from agree ch have a1: "length (x ! (base + ch)) = length (x' ! (base + ch))"
    and a2: "\<forall>m \<le> i. m < length (x ! (base + ch)) \<longrightarrow> x ! (base + ch) ! m = x' ! (base + ch) ! m"
    by blast+
  show "pad_get (x ! (base + ch)) (d * (k - 1)) (i * 1 + kk * d)
      = pad_get (x' ! (base + ch)) (d * (k - 1)) (i * 1 + kk * d)"
    by (rule pad_get_causal[OF a1 a2 le])
qed

lemma crop_rows:
  "map (\<lambda>row. take (length row - p) row)
       (map (\<lambda>(oc, w_o). map (f oc w_o) [0..<l + p]) e)
   = map (\<lambda>(oc, w_o). map (f oc w_o) [0..<l]) e"
  by (simp add: case_prod_beta take_map)

text \<open>The forward pass of a causal layer with a bias, entry by entry.\<close>

lemma ARConv1d_forward_causal_formula:
  assumes b: "bias c = Some b" and cs: "causal c" and st: "stride c = 1"
    and p: "padding c = dilation c * (k - 1)"
    and sh: "weight_shape (weight c) co ci k"
    and pos: "0 < co" "0 < ci" "0 < k" "0 < groups c" "0 < dilation c"
    and dv: "co mod groups c = 0" and lb: "length b = co"
    and tx: "is_tensor (groups c * ci) l x" and l: "0 < l"
  shows "ARConv1d_forward c x =
           Inr (map (\<lambda>(oc, w_o).
                  map (conv1d_at x w_o (b ! oc) ((oc div (co div groups c)) * ci) 1
                         (dilation c * (k - 1)) (dilation c))
                      [0..<l])
                (enumerate 0 (normalize_weight c)))"
proof -
  have shn: "weight_shape (normalize_weight c) co ci k"
    unfolding normalize_weight_def by (rule normalize_weight_shape[OF sh])
  define P where "P = dilation c * (k - 1)"
  note F = F_conv1d_causal_padding[OF shn pos dv lb tx l, folded P_def]
  have pp: "padding c = P" using p by (simp only: P_def)
  have "ARConv1d_forward c x =
           Inr (map (\<lambda>(oc, w_o).
                  map (conv1d_at x w_o (b ! oc) ((oc div (co div groups c)) * ci) 1 P (dilation c))
                      [0..<l])
                (enumerate 0 (normalize_weight c)))"
  proof (cases "P = 0")
    case True
    show ?thesis
      using F by (simp add: ARConv1d_forward_def b st pp True)
  next
    case False
    have step: "ARConv1d_forward c x =
        (if causal c \<and> P \<noteq> 0
         then Inr (map (\<lambda>row. take (length row - P) row)
                    (map (\<lambda>(oc, w_o).
                       map (conv1d_at x w_o (b ! oc) ((oc div (co div groups c)) * ci) 1 P (dilation c))
                           [0..<l + P])
                     (enumerate 0 (normalize_weight c))))
         else Inr (map (\<lambda>(oc, w_o).
                       map (conv1d_at x w_o (b ! oc) ((oc div (co div groups c)) * ci) 1 P (dilation c))
                           [0..<l + P])
                     (enumerate 0 (normalize_weight c))))"
      by (simp only: ARConv1d_forward_def Let_def b option.case st pp F sum.case)
    have "causal c \<and> P \<noteq> 0" using cs False by simp
    then show ?thesis
      by (simp only: step if_True simp_thms crop_rows)
  qed
  then show ?thesis by (simp only: P_def)
qed


text \<open>Its output has the channels of the weight and the length of the input.\<close>

lemma ARConv1d_forward_causal_length:
  assumes b: "bias c = Some b" and cs: "causal c" and st: "stride c = 1"
    and p: "padding c = dilation c * (k - 1)"
    and sh: "weight_shape (weight c) co ci k"
    and pos: "0 < co" "0 < ci" "0 < k" "0 < groups c" "0 < dilation c"
    and dv: "co mod groups c = 0" and lb: "length b = co"
    and tx: "is_tensor (groups c * ci) l x" and l: "0 < l"
  shows "\<exists>out. ARConv1d_forward c x = Inr out \<and> is_tensor co l out"
proof -
  have shn: "weight_shape (normalize_weight c) co ci k"
    unfolding normalize_weight_def by (rule normalize_weight_shape[OF sh])
  then have lw: "length (normalize_weight c) = co" by (simp add: weight_shape_def)
  show ?thesis
    unfolding ARConv1d_forward_causal_formula[OF assms]
    by (auto simp: is_tensor_def lw case_prod_beta)
qed

text \<open>
  Output position \<open>i\<close> reads input positions up to \<open>i\<close> only: two inputs that agree
  there give the same output at \<open>i\<close>.
\<close>

lemma ARConv1d_forward_causal_past:
  assumes b: "bias c = Some b" and cs: "causal c" and st: "stride c = 1"
    and p: "padding c = dilation c * (k - 1)"
    and sh: "weight_shape (weight c) co ci k"
    and pos: "0 < co" "0 < ci" "0 < k" "0 < groups c" "0 < dilation c"
    and dv: "co mod groups c = 0" and lb: "length b = co"
    and tx: "is_tensor (groups c * ci) l x" and tx': "is_tensor (groups c * ci) l x'"
    and l: "0 < l" and i: "i < l"
    and agree: "\<forall>ch < groups c * ci. \<forall>m \<le> i. x ! ch ! m = x' ! ch ! m"
    and oc: "oc < co"
  shows "\<exists>out out'. ARConv1d_forward c x = Inr out \<and> ARConv1d_forward c x' = Inr out'
           \<and> out ! oc ! i = out' ! oc ! i"
proof -
  have shn: "weight_shape (normalize_weight c) co ci k"
    unfolding normalize_weight_def by (rule normalize_weight_shape[OF sh])
  then have lw: "length (normalize_weight c) = co"
    and lo: "length (normalize_weight c ! oc) = ci"
    and lk: "\<forall>w_c \<in> set (normalize_weight c ! oc). length w_c = k"
    using oc by (auto simp: weight_shape_def)
  have g: "co div groups c * groups c = co" using dv by auto
  have "oc div (co div groups c) < groups c"
    using oc g pos by (metis less_mult_imp_div_less mult.commute)
  then have base: "oc div (co div groups c) * ci + ci \<le> groups c * ci"
    by (metis Suc_leI mult_Suc mult_le_mono1 add.commute)
  have eq: "conv1d_at x (normalize_weight c ! oc) (b ! oc) (oc div (co div groups c) * ci) 1
              (dilation c * (k - 1)) (dilation c) i
          = conv1d_at x' (normalize_weight c ! oc) (b ! oc) (oc div (co div groups c) * ci) 1
              (dilation c * (k - 1)) (dilation c) i"
  proof (rule conv1d_at_causal[OF lk], intro allI impI)
    fix ch assume "ch < length (normalize_weight c ! oc)"
    then have ch: "oc div (co div groups c) * ci + ch < groups c * ci"
      using lo base by simp
    then have "length (x ! (oc div (co div groups c) * ci + ch)) = l"
      and "length (x' ! (oc div (co div groups c) * ci + ch)) = l"
      using tx tx' by (auto simp: is_tensor_def)
    then show "length (x ! (oc div (co div groups c) * ci + ch))
                 = length (x' ! (oc div (co div groups c) * ci + ch))
             \<and> (\<forall>m \<le> i. m < length (x ! (oc div (co div groups c) * ci + ch)) \<longrightarrow>
                   x ! (oc div (co div groups c) * ci + ch) ! m
                     = x' ! (oc div (co div groups c) * ci + ch) ! m)"
      using agree ch by simp
  qed
  note f1 = ARConv1d_forward_causal_formula[OF b cs st p sh pos dv lb tx l]
  note f2 = ARConv1d_forward_causal_formula[OF b cs st p sh pos dv lb tx' l]
  show ?thesis
    unfolding f1 f2 using oc i eq
    by (simp add: lw nth_enumerate_eq)
qed

text \<open>Both at the convolution of \<open>ELUConv(1, 2, 3, causal=True)\<close>.\<close>

lemma biased_conv_causal_length:
  "\<exists>out. ARConv1d_forward biased_conv [[1, 2, 3]] = Inr out \<and> is_tensor 2 3 out"
proof -
  have sh: "weight_shape (weight biased_conv) 2 1 3"
    by (simp add: biased_conv_def weight_shape_def)
  have tx: "is_tensor (groups biased_conv * 1) 3 [[1, 2, 3]]"
    by (simp add: biased_conv_def is_tensor_def)
  show ?thesis
    by (rule ARConv1d_forward_causal_length[where b = "[0, 0]" and k = 3 and ci = 1, OF _ _ _ _ sh _ _ _ _ _ _ _ tx])
       (simp_all add: biased_conv_def)
qed

lemma biased_conv_causal_past:
  "\<exists>out out'. ARConv1d_forward biased_conv [[1, 2, 3]] = Inr out
       \<and> ARConv1d_forward biased_conv [[1, 2, 9]] = Inr out' \<and> out ! 0 ! 1 = out' ! 0 ! 1"
proof -
  have sh: "weight_shape (weight biased_conv) 2 1 3"
    by (simp add: biased_conv_def weight_shape_def)
  have tx: "is_tensor (groups biased_conv * 1) 3 [[1, 2, 3]]"
    and tx': "is_tensor (groups biased_conv * 1) 3 [[1, 2, 9]]"
    by (simp_all add: biased_conv_def is_tensor_def)
  have agree: "\<forall>ch < groups biased_conv * 1. \<forall>m \<le> 1. [[1, 2, 3::real]] ! ch ! m = [[1, 2, 9]] ! ch ! m"
    by (simp add: biased_conv_def le_Suc_eq)
  show ?thesis
    by (rule ARConv1d_forward_causal_past[where b = "[0, 0]" and k = 3 and ci = 1 and co = 2 and l = 3,
          OF _ _ _ _ sh _ _ _ _ _ _ _ tx tx' _ _ agree])
       (simp_all add: biased_conv_def)
qed

text \<open>The example objects have the attributes that the constructors assign.\<close>

lemma shaped_conv1_assigned:
  "nn_Conv1d_init [[[0, 0, 1]], [[0, 0, 1]]] b0 1 2 3 1 1 1 1 False = Inr base \<Longrightarrow>
   shaped_conv1 =
     Conv1d.extend (base \<lparr> padding := nat (ARConv1d_padding True ''SAME'' 1 3) \<rparr>)
       (ARConv1d.fields True ''SAME'' (map (\<lambda>n. ln (n + 1 / 100)) (norm12 (weight base))))"
  by (auto simp: nn_Conv1d_init_def shaped_conv1_def ARConv1d_padding_def norm12_def
      Conv1d.extend_def ARConv1d.fields_def Conv1d.defs ARConv1d.defs)

subsection \<open>\<open>create_conv_mask\<close>\<close>

text \<open>
  Claim C5. The specification describes the mask that \<open>create_conv_mask\<close> returns (taps
  after the centre zero, taps before it one, the centre tap the channel mask, the whole
  reversed when mirrored). The code returns no mask: line 62 creates an array of three
  axes and line 63 indexes it with four indices (\<open>mask[:, :, m:, :]\<close>), so whenever the
  array can be created the function raises \<open>IndexError\<close>, and otherwise it raises while
  creating it.
\<close>

theorem create_conv_mask_raises:
  "create_conv_mask kernel_size c_in g_in c_out zero_diag mirror
     = (if g_in = 0 then Inl ZeroDivisionError
        else if c_out < 0 \<or> c_in div g_in < 0 \<or> kernel_size < 0 then Inl ValueError
        else Inl IndexError)"
  by (auto simp: create_conv_mask_def py_floordiv_def np_ones_def nd_setitem_def Let_def)

lemma create_conv_mask_3: "create_conv_mask 3 1 1 1 False False = Inl IndexError"
  by (simp add: create_conv_mask_def py_floordiv_def np_ones_def nd_setitem_def Let_def)

text \<open>The channel mask of two input and four output channels, entry by entry.\<close>

lemma channel_mask_2_4:
  "\<exists>m. channel_mask 2 1 4 False = Inr m \<and> shape m = [4, 2]
       \<and> map (\<lambda>r. map (\<lambda>j. elems m [r, j]) [0, 1]) [0, 1, 2, 3]
           = [[1, 0], [1, 0], [1, 1], [1, 1]]"
  by (simp add: channel_mask_def channel_assert_def py_mod_def py_floordiv_def np_ones_def
      nd_setitem_def slice_bound_def upt_rec Let_def)

subsection \<open>The encoder and decoder towers\<close>

lemma apply_nf_log_dets:
  "apply_nf cells off ns z ftr lq =
     (case nf_log_dets cells off ns z ftr of
        Inl e \<Rightarrow> Inl e
      | Inr (z', lds) \<Rightarrow> Inr (z', foldl (-) lq lds))"
  by (induction ns arbitrary: z lq) (auto split: sum.splits prod.splits)

lemma enc_tower_loop_spec:
  "enc_tower_loop cells s ce cs = Inr (s', ce', cs') \<Longrightarrow>
     ce' = ce @ filter is_combiner_enc cells
   \<and> length cs' = length cs + length (filter is_combiner_enc cells)
   \<and> take (length cs) cs' = cs
   \<and> run_cells (filter (\<lambda>c. \<not> is_combiner_enc c) cells) s = Inr s'
   \<and> (\<forall>pre c post. cells = pre @ c # post \<and> is_combiner_enc c \<longrightarrow>
         run_cells (filter (\<lambda>c. \<not> is_combiner_enc c) pre) s
           = Inr (cs' ! (length cs + length (filter is_combiner_enc pre))))"
proof (induction cells arbitrary: s ce cs)
  case Nil
  then show ?case by simp
next
  case (Cons c cells)
  show ?case
  proof (cases "is_combiner_enc c")
    case True
    with Cons.prems have rec: "enc_tower_loop cells s (ce @ [c]) (cs @ [s]) = Inr (s', ce', cs')"
      by (simp add: is_combiner_enc_def)
    note ih = Cons.IH[OF rec]
    have tk: "take (Suc (length cs)) cs' = cs @ [s]" using ih by simp
    have len: "length cs < length cs'" using ih by simp
    have hd: "cs' ! length cs = s"
      using tk len by (metis nth_append_length nth_take lessI)
    have tk': "take (length cs) cs' = cs"
      using tk by (metis append_eq_conv_conj length_append_singleton take_Suc_conv_app_nth len butlast_snoc butlast_take diff_Suc_1 less_imp_le_nat)
    show ?thesis
    proof (intro conjI allI impI)
      fix pre c' post assume h: "c # cells = pre @ c' # post \<and> is_combiner_enc c'"
      show "run_cells (filter (\<lambda>c. \<not> is_combiner_enc c) pre) s
           = Inr (cs' ! (length cs + length (filter is_combiner_enc pre)))"
      proof (cases pre)
        case Nil
        then show ?thesis using hd by simp
      next
        case (Cons p pre')
        with h have "p = c" "cells = pre' @ c' # post" by simp_all
        then show ?thesis using ih True h Cons by simp
      qed
    qed (use ih True tk' in simp_all)
  next
    case False
    with Cons.prems obtain s1 where c1: "call1 c s = Inr s1"
      and rec: "enc_tower_loop cells s1 ce cs = Inr (s', ce', cs')"
      by (auto simp: is_combiner_enc_def split: sum.splits)
    note ih = Cons.IH[OF rec]
    show ?thesis
    proof (intro conjI allI impI)
      fix pre c' post assume h: "c # cells = pre @ c' # post \<and> is_combiner_enc c'"
      show "run_cells (filter (\<lambda>c. \<not> is_combiner_enc c) pre) s
           = Inr (cs' ! (length cs + length (filter is_combiner_enc pre)))"
      proof (cases pre)
        case Nil
        then show ?thesis using h False by simp
      next
        case (Cons p pre')
        with h have "p = c" "cells = pre' @ c' # post" by simp_all
        then show ?thesis using ih False h Cons c1 by simp
      qed
    qed (use ih False c1 in simp_all)
  qed
qed

lemma group_step_refines:
  assumes "group_step a L ce cs noise st = Inr st'"
  shows "idx_dec st - 1 < length ce \<and> idx_dec st - 1 < length cs
       \<and> group_of_pair a L noise (ce ! (idx_dec st - 1), cs ! (idx_dec st - 1)) st = Inr st'
       \<and> idx_dec st' = idx_dec st"
  using assms unfolding group_step_def group_of_pair_def
  by (auto simp: nth_err_def Let_def apply_nf_log_dets split: sum.splits prod.splits if_splits)

lemma cache_reads_0: "cache_reads ce cs i 0 = []"
  by (simp add: cache_reads_def)

lemma cache_reads_Suc:
  "cache_reads ce cs i (Suc n) =
     (if 0 < i then [(i, ce ! (i - 1), cs ! (i - 1))] else []) @ cache_reads ce cs (Suc i) n"
proof -
  have "[i ..< i + Suc n] = i # [Suc i ..< i + Suc n]"
    by (rule upt_conv_Cons) simp
  then have "[i ..< i + Suc n] = i # [Suc i ..< Suc i + n]"
    by (simp only: add_Suc_right add_Suc)
  then show ?thesis
    unfolding cache_reads_def by (simp only: filter.simps list.map) simp
qed

lemma cache_reads_from_0:
  "cache_reads ce cs 0 (Suc n) = map (\<lambda>k. (k + 1, ce ! k, cs ! k)) [0..<n]"
proof -
  have a: "[0 ..< 0 + Suc n] = 0 # [Suc 0 ..< Suc n]"
    by (simp only: add_0) (rule upt_conv_Cons, simp)
  have b: "filter (\<lambda>i. 0 < i) [Suc 0 ..< Suc n] = [Suc 0 ..< Suc n]"
    by (rule filter_True) auto
  have c: "[Suc 0 ..< Suc n] = map Suc [0..<n]"
    by (simp only: map_Suc_upt)
  show ?thesis
    unfolding cache_reads_def a by (simp only: filter.simps b c) (simp add: comp_def)
qed

lemma dec_tower_loop_refines:
  "dec_tower_loop a L ce cs noise cells st = Inr st' \<Longrightarrow> length ce = length cs \<Longrightarrow>
     idx_dec st' = idx_dec st + length (filter is_combiner_dec cells)
   \<and> consume_cache a L noise cells (drop (idx_dec st - 1) (zip ce cs)) st
       = Inr (st', drop (idx_dec st' - 1) (zip ce cs),
              cache_reads ce cs (idx_dec st) (length (filter is_combiner_dec cells)))"
proof (induction cells arbitrary: st)
  case Nil
  then show ?case by (simp add: cache_reads_0)
next
  case (Cons c cells)
  from Cons.prems(1) obtain st1 where d: "dec_step a L ce cs noise c st = Inr st1"
    and rec: "dec_tower_loop a L ce cs noise cells st1 = Inr st'"
    by (auto split: sum.splits)
  note ih = Cons.IH[OF rec Cons.prems(2)]
  show ?case
  proof (cases "is_combiner_dec c")
    case False
    with d obtain s' where c1: "call1 c (s_cur st) = Inr s'" and st1: "st1 = st \<lparr> s_cur := s' \<rparr>"
      by (auto simp: dec_step_def is_combiner_dec_def split: sum.splits)
    show ?thesis
      using ih False c1 by (simp add: st1)
  next
    case True
    show ?thesis
    proof (cases "idx_dec st = 0")
      case z: True
      with d True obtain s' where c2: "call2 c (s_cur st) (z_cur st) = Inr s'"
        and st1: "st1 = st \<lparr> s_cur := s', idx_dec := 1 \<rparr>"
        by (auto simp: dec_step_def is_combiner_dec_def split: sum.splits)
      have i1: "idx_dec st1 = 1" by (simp add: st1)
      have ih': "consume_cache a L noise cells (zip ce cs) (st \<lparr> s_cur := s', idx_dec := 1 \<rparr>)
                  = Inr (st', drop (idx_dec st' - 1) (zip ce cs),
                         cache_reads ce cs (Suc 0) (length (filter is_combiner_dec cells)))"
        using ih i1 by (simp add: st1)
      have "consume_cache a L noise (c # cells) (drop (idx_dec st - 1) (zip ce cs)) st
              = Inr (st', drop (idx_dec st' - 1) (zip ce cs),
                     cache_reads ce cs (Suc 0) (length (filter is_combiner_dec cells)))"
        using True z c2 ih' by simp
      then show ?thesis
        using ih True z i1 by (simp add: cache_reads_Suc)
    next
      case nz: False
      with d True obtain st2 s' where g: "group_step a L ce cs noise st = Inr st2"
        and c2: "call2 c (s_cur st2) (z_cur st2) = Inr s'"
        and st1: "st1 = st2 \<lparr> s_cur := s', idx_dec := idx_dec st2 + 1 \<rparr>"
        by (auto simp: dec_step_def is_combiner_dec_def split: sum.splits)
      note r = group_step_refines[OF g]
      have lt: "idx_dec st - 1 < length (zip ce cs)" using r Cons.prems(2) by simp
      have q: "drop (idx_dec st - Suc 0) (zip ce cs)
                 = (ce ! (idx_dec st - Suc 0), cs ! (idx_dec st - Suc 0))
                   # drop (idx_dec st) (zip ce cs)"
        using Cons_nth_drop_Suc[OF lt, symmetric] nz r by simp
      have i1: "idx_dec st1 = idx_dec st + 1" using r by (simp add: st1)
      have st1': "st1 = st2 \<lparr> s_cur := s', idx_dec := idx_dec st + 1 \<rparr>"
        using r by (simp add: st1)
      have gp: "group_of_pair a L noise (ce ! (idx_dec st - Suc 0), cs ! (idx_dec st - Suc 0)) st
                  = Inr st2"
        using r by simp
      have ih': "consume_cache a L noise cells (drop (idx_dec st) (zip ce cs))
                    (st2 \<lparr> s_cur := s', idx_dec := idx_dec st + 1 \<rparr>)
                  = Inr (st', drop (idx_dec st' - 1) (zip ce cs),
                         cache_reads ce cs (Suc (idx_dec st)) (length (filter is_combiner_dec cells)))"
        using ih i1 by (simp add: st1')
      have "consume_cache a L noise (c # cells) (drop (idx_dec st - 1) (zip ce cs)) st
              = Inr (st', drop (idx_dec st' - 1) (zip ce cs),
                     (idx_dec st, ce ! (idx_dec st - 1), cs ! (idx_dec st - 1))
                     # cache_reads ce cs (Suc (idx_dec st)) (length (filter is_combiner_dec cells)))"
        using True nz ih' by (simp add: q gp c2)
      then show ?thesis
        using ih True nz i1 by (simp add: cache_reads_Suc)
    qed
  qed
qed


lemma enc_tower_groups_count:
  "length (filter is_combiner_enc (enc_tower_groups cfg cf ef s n mult gl tw))
     = length (filter is_combiner_enc tw)
       + length (filter (\<lambda>g. \<not> (int s = num_latent_scales cfg - 1 \<and> int g = n - 1)) gl)"
  by (induction gl arbitrary: tw) (simp_all add: Let_def is_combiner_enc_def filter_map comp_def)

lemma dec_tower_groups_count:
  "length (filter is_combiner_dec (dec_tower_groups cfg cf df s mult gl tw))
     = length (filter is_combiner_dec tw) + length gl"
  by (induction gl arbitrary: tw) (simp_all add: Let_def is_combiner_dec_def filter_map comp_def)

lemma groups_but_last:
  "length (filter (\<lambda>g. \<not> (P \<and> int g = n - 1)) (py_range n))
     = nat n - (if P \<and> 0 < n then 1 else 0)"
proof (cases "P \<and> 0 < n")
  case True
  then have r: "[0..<nat n] = [0..<nat n - 1] @ [nat n - 1]"
    by (metis Suc_diff_1 upt_Suc_append zero_less_nat_eq zero_le)
  have f: "filter (\<lambda>g. int g \<noteq> n - 1) [0..<nat n - Suc 0] = [0..<nat n - Suc 0]"
    by (rule filter_True) auto
  have "0 < nat n" using True by (simp only: zero_less_nat_eq)
  then have "1 \<le> nat n" by arith
  then have "int (nat n - 1) = int (nat n) - int 1" by (rule of_nat_diff)
  then have "int (nat n - 1) = n - 1" using True by (simp only: of_nat_1 int_nat_eq) simp
  then have l: "int (nat n - Suc 0) = n - 1" by (simp only: One_nat_def)
  show ?thesis
    using True unfolding py_range_def
    by (subst r) (simp add: f l)
next
  case False
  then show ?thesis
    by (auto simp: py_range_def)
qed

lemma enc_tower_scales_count:
  "enc_tower_scales cfg cf ef sl tw mult = Inr (tw', mult') \<Longrightarrow>
     length (filter is_combiner_enc tw')
       = length (filter is_combiner_enc tw)
         + sum_list (map (\<lambda>s. nat (groups_per_scale cfg ! s)
                               - (if int s = num_latent_scales cfg - 1
                                     \<and> 0 < groups_per_scale cfg ! s then 1 else 0)) sl)
   \<and> (\<forall>s \<in> set sl. s < length (groups_per_scale cfg))"
proof (induction sl arbitrary: tw mult)
  case Nil
  then show ?case by simp
next
  case (Cons s sl)
  from Cons.prems have lt: "s < length (groups_per_scale cfg)"
    by (auto simp: nth_err_def split: if_splits)
  let ?t1 = "enc_tower_groups cfg cf ef s (groups_per_scale cfg ! s) mult
               (py_range (groups_per_scale cfg ! s)) tw"
  have c1: "length (filter is_combiner_enc ?t1)
      = length (filter is_combiner_enc tw)
        + (nat (groups_per_scale cfg ! s)
           - (if int s = num_latent_scales cfg - 1 \<and> 0 < groups_per_scale cfg ! s then 1 else 0))"
    by (simp only: enc_tower_groups_count groups_but_last)
  show ?case
  proof (cases "int s < num_latent_scales cfg - 1")
    case True
    with Cons.prems lt obtain d where
      rec: "enc_tower_scales cfg cf ef sl (?t1 @ [Cell ''down_enc'' d]) (CHANNEL_MULT * mult)
              = Inr (tw', mult')"
      by (auto simp: nth_err_def Let_def)
    have "length (filter is_combiner_enc (?t1 @ [Cell ''down_enc'' d]))
            = length (filter is_combiner_enc ?t1)"
      by (simp add: is_combiner_enc_def)
    with Cons.IH[OF rec] c1 lt show ?thesis by simp
  next
    case False
    with Cons.prems lt have rec: "enc_tower_scales cfg cf ef sl ?t1 mult = Inr (tw', mult')"
      by (auto simp: nth_err_def Let_def)
    from Cons.IH[OF rec] c1 lt show ?thesis by simp
  qed
qed

lemma dec_tower_scales_count:
  "dec_tower_scales cfg cf df sl tw mult = Inr (tw', mult') \<Longrightarrow>
     length (filter is_combiner_dec tw')
       = length (filter is_combiner_dec tw)
         + sum_list (map (\<lambda>s. nat (groups_per_scale cfg ! nat (num_latent_scales cfg - int s - 1)))
                         sl)"
proof (induction sl arbitrary: tw mult)
  case Nil
  then show ?case by simp
next
  case (Cons s sl)
  let ?n = "groups_per_scale cfg ! nat (num_latent_scales cfg - int s - 1)"
  let ?t1 = "dec_tower_groups cfg cf df s mult (py_range ?n) tw"
  from Cons.prems have lt: "nat (num_latent_scales cfg - int s - 1) < length (groups_per_scale cfg)"
    by (auto simp: nth_err_def split: if_splits)
  have c1: "length (filter is_combiner_dec ?t1) = length (filter is_combiner_dec tw) + nat ?n"
    by (simp add: dec_tower_groups_count py_range_def)
  show ?case
  proof (cases "int s < num_latent_scales cfg - 1")
    case True
    with Cons.prems lt obtain d where
      rec: "dec_tower_scales cfg cf df sl (?t1 @ [Cell ''up_dec'' d]) (mult / CHANNEL_MULT)
              = Inr (tw', mult')"
      by (auto simp: nth_err_def Let_def)
    have "length (filter is_combiner_dec (?t1 @ [Cell ''up_dec'' d]))
            = length (filter is_combiner_dec ?t1)"
      by (simp add: is_combiner_dec_def)
    with Cons.IH[OF rec] c1 show ?thesis by simp
  next
    case False
    with Cons.prems lt have rec: "dec_tower_scales cfg cf df sl ?t1 mult = Inr (tw', mult')"
      by (auto simp: nth_err_def Let_def)
    from Cons.IH[OF rec] c1 show ?thesis by simp
  qed
qed

text \<open>
  The towers that the two constructors build for one configuration: the decoder tower
  has one combiner position more than the encoder tower has combiner cells.
\<close>

lemma towers_combiner_count:
  assumes e: "init_encoder_tower cfg cf ef mult_e = Inr (te, mult_e')"
    and d: "init_decoder_tower cfg cf' df mult_d = Inr (td, mult_d')"
    and S: "0 < num_latent_scales cfg"
    and G: "\<forall>n \<in> set (groups_per_scale cfg). 0 < n"
  shows "length (filter is_combiner_dec td) = Suc (length (filter is_combiner_enc te))"
proof -
  define N where "N = nat (num_latent_scales cfg)"
  define f where "f = (\<lambda>s. nat (groups_per_scale cfg ! s))"
  have N: "0 < N" and SN: "num_latent_scales cfg = int N"
    using S by (simp_all add: N_def)
  note ec = enc_tower_scales_count[OF e[unfolded init_encoder_tower_def py_range_def]]
  note dc = dec_tower_scales_count[OF d[unfolded init_decoder_tower_def py_range_def]]
  have len: "\<forall>s < N. s < length (groups_per_scale cfg)"
    using ec by (simp add: N_def)
  have pos: "\<forall>s < N. 0 < groups_per_scale cfg ! s"
    using len G by simp
  have fpos: "0 < f (N - 1)"
    using pos N by (simp add: f_def)
  have split: "[0..<N] = [0..<N - 1] @ [N - 1]"
    using N by (metis Suc_diff_1 upt_Suc_append zero_le)
  have enc_terms: "map (\<lambda>s. nat (groups_per_scale cfg ! s)
                     - (if int s = num_latent_scales cfg - 1 \<and> 0 < groups_per_scale cfg ! s
                        then 1 else 0)) [0..<N - 1]
                 = map f [0..<N - 1]"
    by (rule map_cong[OF refl]) (auto simp: SN f_def)
  have enc_last: "nat (groups_per_scale cfg ! (N - 1))
                     - (if int (N - 1) = num_latent_scales cfg - 1
                           \<and> 0 < groups_per_scale cfg ! (N - 1) then 1 else 0)
                 = f (N - 1) - 1"
    using pos N by (simp add: SN f_def of_nat_diff)
  have enc_sum: "sum_list (map (\<lambda>s. nat (groups_per_scale cfg ! s)
                     - (if int s = num_latent_scales cfg - 1 \<and> 0 < groups_per_scale cfg ! s
                        then 1 else 0)) [0..<N])
                 = sum_list (map f [0..<N - 1]) + (f (N - 1) - 1)"
    by (subst split) (simp only: map_append sum_list_append enc_terms list.map enc_last
        sum_list.Cons sum_list.Nil add_0_right)
  have dec_terms: "map (\<lambda>s. nat (groups_per_scale cfg ! nat (num_latent_scales cfg - int s - 1)))
                       [0..<N]
                 = map (\<lambda>s. f (N - Suc s)) [0..<N]"
  proof (rule map_cong[OF refl])
    fix s assume "s \<in> set [0..<N]"
    then have "s < N" by simp
    then have "nat (num_latent_scales cfg - int s - 1) = N - Suc s"
      by (simp add: SN)
    then show "nat (groups_per_scale cfg ! nat (num_latent_scales cfg - int s - 1)) = f (N - Suc s)"
      by (simp add: f_def)
  qed
  have "sum_list (map (\<lambda>s. f (N - Suc s)) [0..<N]) = (\<Sum>s<N. f (N - Suc s))"
    by (simp add: interv_sum_list_conv_sum_set_nat atLeast0LessThan)
  also have "\<dots> = (\<Sum>s<N. f s)"
    by (rule sum.nat_diff_reindex)
  also have "\<dots> = sum_list (map f [0..<N])"
    by (simp add: interv_sum_list_conv_sum_set_nat atLeast0LessThan)
  also have "\<dots> = sum_list (map f [0..<N - 1]) + f (N - 1)"
    by (subst split) simp
  finally have dec_sum: "sum_list (map (\<lambda>s. f (N - Suc s)) [0..<N])
                           = sum_list (map f [0..<N - 1]) + f (N - 1)" .
  have "length (filter is_combiner_enc te) = sum_list (map f [0..<N - 1]) + (f (N - 1) - 1)"
    using ec enc_sum by (simp add: N_def)
  moreover have "length (filter is_combiner_dec td) = sum_list (map f [0..<N - 1]) + f (N - 1)"
  proof -
    have "length (filter is_combiner_dec td)
            = sum_list (map (\<lambda>s. nat (groups_per_scale cfg ! nat (num_latent_scales cfg - int s - 1)))
                            [0..<N])"
      using dc by (simp add: N_def)
    also have "\<dots> = sum_list (map (\<lambda>s. f (N - Suc s)) [0..<N])"
      by (simp only: dec_terms)
    also have "\<dots> = sum_list (map f [0..<N - 1]) + f (N - 1)"
      by (rule dec_sum)
    finally show ?thesis .
  qed
  ultimately show ?thesis using fpos by simp
qed


lemma forward_latentsD:
  assumes "forward_latents a L noise s = Inr st"
  shows "\<exists>s' ce cs st0. enc_tower_loop (enc_tower a) s [] [] = Inr (s', ce, cs)
          \<and> first_group a L noise s' = Inr st0
          \<and> dec_tower_loop a L (rev ce) (rev cs) noise (dec_tower a) st0 = Inr st"
  using assms unfolding forward_latents_def
  by (auto split: sum.splits prod.splits)

lemma first_group_idx: "first_group a L noise s = Inr st0 \<Longrightarrow> idx_dec st0 = 0"
  by (auto simp: first_group_def Let_def split: sum.splits prod.splits)

text \<open>
  Claim C6. In \<open>AutoEncoder.forward\<close>, for a model whose towers are built by
  \<open>init_encoder_tower\<close> and \<open>init_decoder_tower\<close> for one configuration (at least one
  scale, at least one group in every scale): a cell of the encoder tower with cell type
  \<open>'combiner_enc'\<close> is not evaluated; the collected cells \<open>ce\<close> are the combiner cells of
  the tower in order, the stream that leaves the tower is the one obtained by running the
  other cells only, and the stream cached for a combiner cell is the one obtained by
  running the other cells before it. The decoder pass then is the traversal that
  consumes the reversed list of cached pairs as a queue, applying the cached cell to
  the cached stream and the decoder stream at every combiner position but the first:
  it ends in the state of the forward pass with the queue empty, and it takes pair \<open>k\<close>
  of the reversed lists, the pair collected \<open>k\<close>-th from last, at \<open>idx_dec = k + 1\<close>.
\<close>

theorem combiner_cache_reversed:
  assumes enc_built: "init_encoder_tower cfg cell_fn enc_comb_fn mult_e = Inr (enc_tower a, mult_e')"
    and dec_built: "init_decoder_tower cfg cell_fn' dec_comb_fn mult_d = Inr (dec_tower a, mult_d')"
    and scales: "0 < num_latent_scales cfg"
    and groups: "\<forall>n \<in> set (groups_per_scale cfg). 0 < n"
    and fwd: "forward_latents a L noise s = Inr st"
  shows "\<exists>s' ce cs st0.
           enc_tower_loop (enc_tower a) s [] [] = Inr (s', ce, cs)
         \<and> ce = filter is_combiner_enc (enc_tower a) \<and> length cs = length ce
         \<and> run_cells (filter (\<lambda>c. \<not> is_combiner_enc c) (enc_tower a)) s = Inr s'
         \<and> (\<forall>pre c post. enc_tower a = pre @ c # post \<and> is_combiner_enc c \<longrightarrow>
               run_cells (filter (\<lambda>c. \<not> is_combiner_enc c) pre) s
                 = Inr (cs ! length (filter is_combiner_enc pre)))
         \<and> first_group a L noise s' = Inr st0
         \<and> consume_cache a L noise (dec_tower a) (rev (zip ce cs)) st0
             = Inr (st, [],
                    map (\<lambda>k. (k + 1, ce ! (length ce - 1 - k), cs ! (length ce - 1 - k)))
                        [0..<length ce])"
proof -
  from forward_latentsD[OF fwd] obtain s' ce cs st0
    where enc: "enc_tower_loop (enc_tower a) s [] [] = Inr (s', ce, cs)"
      and fg: "first_group a L noise s' = Inr st0"
      and loop: "dec_tower_loop a L (rev ce) (rev cs) noise (dec_tower a) st0 = Inr st"
    by blast
  note e = enc_tower_loop_spec[OF enc]
  have ce: "ce = filter is_combiner_enc (enc_tower a)" and len: "length cs = length ce"
    using e by simp_all
  have run: "run_cells (filter (\<lambda>c. \<not> is_combiner_enc c) (enc_tower a)) s = Inr s'"
    using e by simp
  have cached: "\<forall>pre c post. enc_tower a = pre @ c # post \<and> is_combiner_enc c \<longrightarrow>
               run_cells (filter (\<lambda>c. \<not> is_combiner_enc c) pre) s
                 = Inr (cs ! length (filter is_combiner_enc pre))"
    using e by simp
  have cnt: "length (filter is_combiner_dec (dec_tower a)) = Suc (length ce)"
    using towers_combiner_count[OF enc_built dec_built scales groups] ce by simp
  have lr: "length (rev ce) = length (rev cs)" using len by simp
  note r = dec_tower_loop_refines[OF loop lr]
  have i0: "idx_dec st0 = 0" by (rule first_group_idx[OF fg])
  have idx: "idx_dec st = Suc (length ce)" using r i0 cnt by simp
  have zr: "zip (rev ce) (rev cs) = rev (zip ce cs)"
    using len by (simp add: zip_rev)
  have dr: "drop (idx_dec st - 1) (rev (zip ce cs)) = []"
    using idx len by simp
  have tk: "cache_reads (rev ce) (rev cs) 0 (Suc (length ce))
              = map (\<lambda>k. (k + 1, ce ! (length ce - 1 - k), cs ! (length ce - 1 - k)))
                    [0..<length ce]"
    unfolding cache_reads_from_0
    by (rule map_cong[OF refl]) (use len in \<open>simp add: rev_nth\<close>)
  have "consume_cache a L noise (dec_tower a) (drop (idx_dec st0 - 1) (zip (rev ce) (rev cs))) st0
          = Inr (st, drop (idx_dec st - 1) (zip (rev ce) (rev cs)),
                 cache_reads (rev ce) (rev cs) (idx_dec st0)
                   (length (filter is_combiner_dec (dec_tower a))))"
    using r by blast
  then have cc: "consume_cache a L noise (dec_tower a) (rev (zip ce cs)) st0
          = Inr (st, [],
                 map (\<lambda>k. (k + 1, ce ! (length ce - 1 - k), cs ! (length ce - 1 - k)))
                     [0..<length ce])"
    by (simp only: i0 cnt dr tk zr diff_0 drop_0 zero_diff)
  show ?thesis
    using enc ce len run cached fg cc by blast
qed

lemma ex_towers_built:
  "init_encoder_tower ex_cfg ex_cell_fn ex_enc_comb_fn 1 = Inr (enc_tower ex_model, 4)"
  "init_decoder_tower ex_cfg ex_cell_fn ex_dec_comb_fn 4 = Inr (dec_tower ex_model, 1)"
  by (simp_all add: init_encoder_tower_def init_decoder_tower_def ex_cfg_def ex_model_def
      ex_enc_tower_def ex_dec_tower_def ex_comb1_def ex_comb2_def py_range_def upt_rec
      nth_err_def py_int_def CHANNEL_MULT_def Let_def)

lemma ex_model_enc:
  "enc_tower_loop (enc_tower ex_model) 0 [] [] = Inr (10, [ex_comb1, ex_comb2], [1, 4])"
  by (simp add: ex_model_def ex_enc_tower_def ex_comb1_def ex_comb2_def ex_cell_fn_def)

lemma ex_model_first_group:
  "first_group ex_model ex_lib int 10
     = Inr \<lparr> idx_dec = 0, s_cur = 0, z_cur = 10, nf_offset = 0, all_q = [(10, 11)],
             all_p = [(0, 0)], all_log_q = [0], all_log_p = [10] \<rparr>"
  by (simp add: first_group_def ex_model_def ex_lib_def nth_err_def py_range_def)

lemma ex_model_forward:
  "forward_latents ex_model ex_lib int 0
     = Inr \<lparr> idx_dec = 3, s_cur = 241, z_cur = 165, nf_offset = 0,
             all_q = [(10, 11), (56, 58), (163, 165)], all_p = [(0, 0), (16, 17), (76, 77)],
             all_log_q = [0, 1, 2], all_log_p = [10, 41, 89] \<rparr>"
  by (simp add: forward_latents_def ex_model_enc ex_model_first_group)
    (simp add: ex_model_def ex_lib_def ex_dec_tower_def nth_err_def py_range_def dec_step_def
      group_step_def ex_comb1_def ex_comb2_def ex_cell_fn_def ex_enc_comb_fn_def
      ex_dec_comb_fn_def)

theorem combiner_cache_reversed_witness:
  "forward_latents ex_model ex_lib int 0
     = Inr \<lparr> idx_dec = 3, s_cur = 241, z_cur = 165, nf_offset = 0,
             all_q = [(10, 11), (56, 58), (163, 165)], all_p = [(0, 0), (16, 17), (76, 77)],
             all_log_q = [0, 1, 2], all_log_p = [10, 41, 89] \<rparr>
   \<and> consume_cache ex_model ex_lib int (dec_tower ex_model) [(ex_comb2, 4), (ex_comb1, 1)]
       \<lparr> idx_dec = 0, s_cur = 0, z_cur = 10, nf_offset = 0, all_q = [(10, 11)],
         all_p = [(0, 0)], all_log_q = [0], all_log_p = [10] \<rparr>
     = Inr (\<lparr> idx_dec = 3, s_cur = 241, z_cur = 165, nf_offset = 0,
              all_q = [(10, 11), (56, 58), (163, 165)], all_p = [(0, 0), (16, 17), (76, 77)],
              all_log_q = [0, 1, 2], all_log_p = [10, 41, 89] \<rparr>,
            [], [(1, ex_comb2, 4), (2, ex_comb1, 1)])"
proof -
  have scales: "0 < num_latent_scales ex_cfg"
    and groups: "\<forall>n \<in> set (groups_per_scale ex_cfg). 0 < n"
    by (simp_all add: ex_cfg_def)
  from combiner_cache_reversed [OF ex_towers_built scales groups ex_model_forward]
  obtain s' ce cs st0
    where enc: "enc_tower_loop (enc_tower ex_model) 0 [] [] = Inr (s', ce, cs)"
      and fg: "first_group ex_model ex_lib int s' = Inr st0"
      and cc: "consume_cache ex_model ex_lib int (dec_tower ex_model) (rev (zip ce cs)) st0
             = Inr (\<lparr> idx_dec = 3, s_cur = 241, z_cur = 165, nf_offset = 0,
                      all_q = [(10, 11), (56, 58), (163, 165)],
                      all_p = [(0, 0), (16, 17), (76, 77)],
                      all_log_q = [0, 1, 2], all_log_p = [10, 41, 89] \<rparr>, [],
                    map (\<lambda>k. (k + 1, ce ! (length ce - 1 - k), cs ! (length ce - 1 - k)))
                        [0..<length ce])"
    by blast
  from enc have v: "s' = 10" "ce = [ex_comb1, ex_comb2]" "cs = [1, 4]"
    by (simp_all add: ex_model_enc)
  from fg have st0: "st0 = \<lparr> idx_dec = 0, s_cur = 0, z_cur = 10, nf_offset = 0,
                             all_q = [(10, 11)], all_p = [(0, 0)], all_log_q = [0],
                             all_log_p = [10] \<rparr>"
    by (simp add: v ex_model_first_group)
  have "consume_cache ex_model ex_lib int (dec_tower ex_model) [(ex_comb2, 4), (ex_comb1, 1)]
       \<lparr> idx_dec = 0, s_cur = 0, z_cur = 10, nf_offset = 0, all_q = [(10, 11)],
         all_p = [(0, 0)], all_log_q = [0], all_log_p = [10] \<rparr>
     = Inr (\<lparr> idx_dec = 3, s_cur = 241, z_cur = 165, nf_offset = 0,
              all_q = [(10, 11), (56, 58), (163, 165)], all_p = [(0, 0), (16, 17), (76, 77)],
              all_log_q = [0, 1, 2], all_log_p = [10, 41, 89] \<rparr>,
            [], [(1, ex_comb2, 4), (2, ex_comb1, 1)])"
    using cc by (simp add: v st0 upt_rec)
  with ex_model_forward show ?thesis by (rule conjI)
qed

subsection \<open>KL terms and normalizing flows\<close>

lemma PairedCellAR_init_isl: "isl (PairedCellAR_init w b n_z num_ftr num_c cp)"
  by (simp add: PairedCellAR_init_raises)

lemma sampler_flows_returns:
  "sampler_flows w b cfg cp mult ns flows = Inr flows' \<Longrightarrow> ns = [] \<and> flows' = flows"
proof (cases ns)
  case Nil
  then show "sampler_flows w b cfg cp mult ns flows = Inr flows' \<Longrightarrow> ns = [] \<and> flows' = flows"
    by simp
next
  case (Cons n ns')
  assume r: "sampler_flows w b cfg cp mult ns flows = Inr flows'"
  obtain e where "PairedCellAR_init (w (length flows)) (b (length flows))
                    (num_latent_per_group cfg)
                    (py_int (real_of_int (num_channels_enc cfg) * mult))
                    (8 * num_latent_per_group cfg) cp = Inl e"
    using PairedCellAR_init_isl by (metis isl_def)
  with r Cons show "ns = [] \<and> flows' = flows" by simp
qed

lemma sampler_groups_returns:
  "sampler_groups w b cfg n_flows cp enc_fn dec_fn s mult gl (e0, d0, f0) = Inr (e, d, f) \<Longrightarrow>
     f = f0 \<and> length e = length e0 + length gl \<and> (gl \<noteq> [] \<longrightarrow> py_range n_flows = [])"
proof (induction gl arbitrary: e0 d0 f0)
  case Nil
  then show ?case by simp
next
  case (Cons g gl)
  from Cons.prems obtain f1 where fl: "sampler_flows w b cfg cp mult (py_range n_flows) f0 = Inr f1"
    by (auto simp: Let_def split: sum.splits)
  note r = sampler_flows_returns[OF fl]
  from Cons.prems fl obtain e1 d1 where
    rec: "sampler_groups w b cfg n_flows cp enc_fn dec_fn s mult gl (e1, d1, f1) = Inr (e, d, f)"
    and e1: "length e1 = Suc (length e0)"
    by (auto simp: Let_def)
  from Cons.IH[OF rec] r e1 show ?case by simp
qed

lemma sampler_scales_returns:
  "sampler_scales w b cfg n_flows cp enc_fn dec_fn sl mult (e0, d0, f0) = Inr (e, d, f) \<Longrightarrow>
     f = f0 \<and> (py_range n_flows \<noteq> [] \<longrightarrow> length e = length e0)"
proof (induction sl arbitrary: mult e0 d0 f0)
  case Nil
  then show ?case by simp
next
  case (Cons s sl)
  from Cons.prems obtain n e1 d1 f1 where
    g: "sampler_groups w b cfg n_flows cp enc_fn dec_fn s mult (py_range n) (e0, d0, f0)
          = Inr (e1, d1, f1)"
    and rec: "sampler_scales w b cfg n_flows cp enc_fn dec_fn sl (mult / CHANNEL_MULT) (e1, d1, f1)
          = Inr (e, d, f)"
    by (auto split: sum.splits)
  from sampler_groups_returns[OF g] Cons.IH[OF rec] show ?case
    by auto
qed

text \<open>
  Claim C8. The specification asks that the KL term of a latent group is \<open>log_q - log_p\<close>,
  with every flow's log-determinant subtracted from \<open>log_q\<close>, when flows are active, and
  the closed form \<open>q.kl(p)\<close> otherwise. The code never has active flows: every flow cell
  is a \<open>PairedCellAR\<close>, whose constructor raises, so \<open>init_normal_sampler\<close> raises for
  the configuration of one group with one flow, and whenever it returns it has built no
  flow cell, and no posterior sampler either if a flow was asked for.
\<close>

theorem flows_never_built:
  "init_normal_sampler w b one_group_cfg 1 cp enc_fn dec_fn mult = Inl (NameError ''Cin'')
   \<and> (\<forall>e d f. init_normal_sampler w b cfg n_flows cp enc_fn dec_fn mult = Inr (e, d, f) \<longrightarrow>
         f = [] \<and> (0 < n_flows \<longrightarrow> e = []))"
proof -
  have a: "init_normal_sampler w b one_group_cfg 1 cp enc_fn dec_fn mult = Inl (NameError ''Cin'')"
    by (simp add: init_normal_sampler_def one_group_cfg_def py_range_def upt_rec nth_err_def
        Let_def PairedCellAR_init_raises)
  have b: "f = [] \<and> (0 < n_flows \<longrightarrow> e = [])"
    if r: "init_normal_sampler w b cfg n_flows cp enc_fn dec_fn mult = Inr (e, d, f)" for e d f
  proof -
    note s = sampler_scales_returns[OF r[unfolded init_normal_sampler_def]]
    have "0 < n_flows \<Longrightarrow> py_range n_flows \<noteq> []"
      by (simp add: py_range_def)
    with s show ?thesis by auto
  qed
  show ?thesis using a b by blast
qed

lemma ex_sampler_built:
  "\<exists>e d f. init_normal_sampler (\<lambda>i j. []) (\<lambda>i j. []) ex_cfg 0 False
              (\<lambda>c1 c2 x. Inr (x :: int)) (\<lambda>c1 c2 x. Inr x) 4 = Inr (e, d, f)
           \<and> length e = 3 \<and> length d = 2"
  by (simp add: init_normal_sampler_def ex_cfg_def py_range_def upt_rec nth_err_def Let_def)

theorem flows_never_built_witness:
  "\<exists>e d. init_normal_sampler (\<lambda>i j. []) (\<lambda>i j. []) ex_cfg 0 False
              (\<lambda>c1 c2 x. Inr (x :: int)) (\<lambda>c1 c2 x. Inr x) 4 = Inr (e, d, [])
           \<and> length e = 3 \<and> length d = 2"
proof -
  from ex_sampler_built obtain e d f
    where r: "init_normal_sampler (\<lambda>i j. []) (\<lambda>i j. []) ex_cfg 0 False
                (\<lambda>c1 c2 x. Inr (x :: int)) (\<lambda>c1 c2 x. Inr x) 4 = Inr (e, d, f)"
      and l: "length e = 3" "length d = 2"
    by blast
  have "f = []"
    using flows_never_built [THEN conjunct2, rule_format, OF r] by simp
  with r l show ?thesis by blast
qed

text \<open>
  The choice between the two forms in lines 463-466, for the flags that lines 168 and
  169 set from \<open>num_nf\<close>.
\<close>

lemma kl_terms_choice:
  assumes "g < length (all_q st)" and "length (all_p st) = length (all_q st)"
    and "length (all_log_q st) = length (all_q st)"
    and "length (all_log_p st) = length (all_q st)"
  shows "kl_terms (init_nf num_nf a) L st ! g =
           (if num_nf > 0 then all_log_q st ! g - all_log_p st ! g
            else kl L (all_q st ! g) (all_p st ! g))"
  using assms by (simp add: kl_terms_def kl_per_var_def init_nf_def)

subsection \<open>The mixture-of-logistics flow\<close>

lemma exp_softplus: "exp (softplus u) = 1 + exp u"
proof -
  have "0 < 1 + exp u" by (simp add: add_pos_pos)
  then show ?thesis by (simp only: softplus_def exp_ln)
qed

lemma sigmoid_neg: "sigmoid (- u) = 1 / (1 + exp u)"
  by (simp only: sigmoid_def minus_minus)

lemma one_minus_sigmoid_neg: "1 - sigmoid (- u) = exp u / (1 + exp u)"
proof -
  have p: "0 < 1 + exp u" by (simp add: add_pos_pos)
  have "1 - 1 / (1 + exp u) = (1 + exp u) / (1 + exp u) - 1 / (1 + exp u)"
    using p by simp
  also have "\<dots> = exp u / (1 + exp u)"
    by (simp only: diff_divide_distrib[symmetric] add_diff_cancel_left')
  finally show ?thesis by (simp only: sigmoid_neg)
qed

lemma term_cdf: "exp (lp - softplus u) = exp lp * sigmoid (- u)"
  by (simp only: exp_diff exp_softplus sigmoid_neg times_divide_eq_right mult_1_right)

lemma term_one_minus: "exp (lp - softplus u + u) = exp lp * (1 - sigmoid (- u))"
proof -
  have "exp (lp - softplus u + u) = exp lp / (1 + exp u) * exp u"
    by (simp only: exp_add exp_diff exp_softplus)
  also have "\<dots> = exp lp * (exp u / (1 + exp u))"
    by simp
  finally show ?thesis by (simp only: one_minus_sigmoid_neg)
qed

lemma term_pdf:
  "exp (lp + u - ls - 2 * softplus u)
     = exp lp * (sigmoid (- u) * (1 - sigmoid (- u)) / exp ls)"
proof -
  have "lp + u - ls - 2 * softplus u = lp + u - ls - softplus u - softplus u"
    by simp
  then have "exp (lp + u - ls - 2 * softplus u)
      = exp lp * exp u / exp ls / (1 + exp u) / (1 + exp u)"
    by (simp only: exp_add exp_diff exp_softplus)
  also have "\<dots> = exp lp * (1 / (1 + exp u) * (exp u / (1 + exp u)) / exp ls)"
    by simp
  finally show ?thesis by (simp only: one_minus_sigmoid_neg) (simp only: sigmoid_neg)
qed

lemma zip_maps: "zip (map g xs) (map h xs) = map (\<lambda>x. (g x, h x)) xs"
  by (induction xs) simp_all

lemma triples:
  assumes "length a = length b" and "length b = length c"
  shows "a = map fst (zip a (zip b c)) \<and> b = map (fst \<circ> snd) (zip a (zip b c))
       \<and> c = map (snd \<circ> snd) (zip a (zip b c))"
  using assms by (simp add: map_fst_zip map_snd_zip flip: map_map)

lemma sum_exp_pos: "T \<noteq> [] \<Longrightarrow> 0 < sum_list (map (\<lambda>t. exp (f t :: real)) T)"
  by (induction T) (auto simp: add_pos_nonneg sum_list_nonneg intro!: add_pos_nonneg sum_list_nonneg)

lemma term_one_minus': "exp (lp - softplus (- x) - x) = exp lp * (1 - sigmoid x)"
  using term_one_minus[of lp "- x"] by simp

lemma term_pdf':
  "exp (lp - x - ls - 2 * softplus (- x)) = exp lp * (sigmoid x * (1 - sigmoid x) / exp ls)"
  using term_pdf[of lp "- x" ls] by simp

lemma mix_flow_T:
  fixes T :: "(real \<times> real \<times> real) list"
  assumes ne: "T \<noteq> []"
  defines "lg \<equiv> map fst T" and "ms \<equiv> map (fst \<circ> snd) T" and "lss \<equiv> map (snd \<circ> snd) T"
  shows "mix_log_cdf_flow_at z lg ms lss la b =
     (exp la * (ln (mix_cdf z lg ms lss) - ln (1 - mix_cdf z lg ms lss)) + b,
      la - ln (mix_cdf z lg ms lss) - ln (1 - mix_cdf z lg ms lss) + ln (mix_pdf z lg ms lss))"
proof -
  define S where "S = sum_list (map (\<lambda>t. exp (fst t)) T)"
  define X where "X = (\<lambda>t :: real \<times> real \<times> real. (z - fst (snd t)) / mix_scale (snd (snd t)))"
  define lp where "lp = (\<lambda>t :: real \<times> real \<times> real. fst t - ln S)"
  have Spos: "0 < S" unfolding S_def by (rule sum_exp_pos[OF ne])
  have elp: "exp (lp t) = exp (fst t) / S" for t
    using Spos by (simp add: lp_def exp_diff)
  have u: "- (z - fst (snd t)) * exp (- max (- 7) (snd (snd t))) = - X t" for t
    by (simp add: X_def mix_scale_def exp_minus divide_inverse algebra_simps)
  have cdf: "mix_cdf z lg ms lss = sum_list (map (\<lambda>t. exp (lp t) * sigmoid (X t)) T)"
    unfolding mix_cdf_def softmax_def lg_def ms_def lss_def
    by (simp add: zip_maps comp_def elp X_def S_def case_prod_beta)
  have pdf: "mix_pdf z lg ms lss
      = sum_list (map (\<lambda>t. exp (lp t) * (sigmoid (X t) * (1 - sigmoid (X t)) / mix_scale (snd (snd t)))) T)"
    unfolding mix_pdf_def softmax_def lg_def ms_def lss_def
    by (simp add: zip_maps comp_def elp X_def S_def case_prod_beta)
  have one: "sum_list (map (\<lambda>t. exp (lp t)) T) = 1"
  proof -
    have "sum_list (map (\<lambda>t. exp (lp t)) T) = sum_list (map (\<lambda>t. exp (fst t) * inverse S) T)"
      by (simp add: elp divide_inverse)
    also have "\<dots> = S * inverse S"
      unfolding S_def by (simp add: sum_list_mult_const)
    also have "\<dots> = 1" using Spos by simp
    finally show ?thesis .
  qed
  have A: "sum_list (map (\<lambda>t. exp (lp t - softplus (- X t))) T) = mix_cdf z lg ms lss"
    by (simp add: term_cdf cdf)
  have B: "sum_list (map (\<lambda>t. exp (lp t - softplus (- X t) + - X t)) T) = 1 - mix_cdf z lg ms lss"
  proof -
    have "sum_list (map (\<lambda>t. exp (lp t - softplus (- X t) + - X t)) T)
        = sum_list (map (\<lambda>t. exp (lp t) - exp (lp t) * sigmoid (X t)) T)"
      by (simp add: term_one_minus' right_diff_distrib)
    also have "\<dots> = sum_list (map (\<lambda>t. exp (lp t)) T) - sum_list (map (\<lambda>t. exp (lp t) * sigmoid (X t)) T)"
      by (rule sum_list_subtractf)
    finally show ?thesis by (simp add: one cdf)
  qed
  have C: "sum_list (map (\<lambda>t. exp (lp t + - X t - max (- 7) (snd (snd t)) - 2 * softplus (- X t))) T)
        = mix_pdf z lg ms lss"
    by (simp add: term_pdf' pdf mix_scale_def)
  have UX: "- X t = (fst (snd t) - z) * exp (- max (- 7) (snd (snd t)))" for t
    by (simp add: X_def mix_scale_def exp_minus divide_inverse algebra_simps)
  note A' = A[unfolded lp_def UX lg_def ms_def lss_def comp_def]
  note B' = B[unfolded lp_def UX lg_def ms_def lss_def comp_def]
  note C' = C[unfolded lp_def UX lg_def ms_def lss_def comp_def]
  show ?thesis
    unfolding mix_log_cdf_flow_at_def Let_def log_softmax_def logsumexp_def lg_def ms_def lss_def
    apply (simp add: zip_maps comp_def flip: S_def)
    apply (simp only: A' B' C')
    done
qed

lemma mix_log_cdf_flow_at_formula:
  assumes "logit_pi \<noteq> []" and "length ms = length logit_pi"
    and "length log_s = length logit_pi"
  shows "mix_log_cdf_flow_at z logit_pi ms log_s log_a b =
           (exp log_a * (ln (mix_cdf z logit_pi ms log_s) - ln (1 - mix_cdf z logit_pi ms log_s)) + b,
            log_a - ln (mix_cdf z logit_pi ms log_s) - ln (1 - mix_cdf z logit_pi ms log_s)
              + ln (mix_pdf z logit_pi ms log_s))"
proof -
  let ?T = "zip logit_pi (zip ms log_s)"
  have ne: "?T \<noteq> []"
    using assms by (cases logit_pi; cases ms; cases log_s) simp_all
  have eqs: "logit_pi = map fst ?T" "ms = map (fst \<circ> snd) ?T" "log_s = map (snd \<circ> snd) ?T"
    using triples[of logit_pi ms log_s] assms by simp_all
  have "mix_log_cdf_flow_at z (map fst ?T) (map (fst \<circ> snd) ?T) (map (snd \<circ> snd) ?T) log_a b =
           (exp log_a * (ln (mix_cdf z (map fst ?T) (map (fst \<circ> snd) ?T) (map (snd \<circ> snd) ?T))
              - ln (1 - mix_cdf z (map fst ?T) (map (fst \<circ> snd) ?T) (map (snd \<circ> snd) ?T))) + b,
            log_a - ln (mix_cdf z (map fst ?T) (map (fst \<circ> snd) ?T) (map (snd \<circ> snd) ?T))
              - ln (1 - mix_cdf z (map fst ?T) (map (fst \<circ> snd) ?T) (map (snd \<circ> snd) ?T))
              + ln (mix_pdf z (map fst ?T) (map (fst \<circ> snd) ?T) (map (snd \<circ> snd) ?T)))"
    by (rule mix_flow_T[OF ne])
  then show ?thesis
    by (simp only: eqs[symmetric])
qed

lemma column_length: "is_tensor3 n k l p \<Longrightarrow> i < n \<Longrightarrow> length (column p i t) = k"
  by (simp add: is_tensor3_def is_tensor_def column_def)

lemma mix_log_cdf_flow_entry:
  assumes "i < length z1" and "t < length (z1 ! i)"
  shows "fst (mix_log_cdf_flow z1 logit_pi ms log_s log_a b) ! i ! t
           = fst (mix_log_cdf_flow_at (z1 ! i ! t) (column logit_pi i t) (column ms i t)
                    (column log_s i t) (log_a ! i ! 0 ! t) (b ! i ! 0 ! t))"
    and "snd (mix_log_cdf_flow z1 logit_pi ms log_s log_a b) ! i ! t
           = snd (mix_log_cdf_flow_at (z1 ! i ! t) (column logit_pi i t) (column ms i t)
                    (column log_s i t) (log_a ! i ! 0 ! t) (b ! i ! 0 ! t))"
  using assms
  by (simp_all add: mix_log_cdf_flow_def Let_def column_def nth_enumerate_eq)

lemma mix_log_cdf_flow_shape:
  "length (fst (mix_log_cdf_flow z1 logit_pi ms log_s log_a b)) = length z1"
  "length (snd (mix_log_cdf_flow z1 logit_pi ms log_s log_a b)) = length z1"
  "i < length z1 \<Longrightarrow> length (fst (mix_log_cdf_flow z1 logit_pi ms log_s log_a b) ! i) = length (z1 ! i)"
  "i < length z1 \<Longrightarrow> length (snd (mix_log_cdf_flow z1 logit_pi ms log_s log_a b) ! i) = length (z1 ! i)"
  by (simp_all add: mix_log_cdf_flow_def Let_def nth_enumerate_eq)

lemma mix_log_cdf_flow_clamp:
  assumes ls: "is_tensor3 n k l log_s" and z: "is_tensor n l z1"
  shows "mix_log_cdf_flow z1 logit_pi ms (map (map (map (max (- 7)))) log_s) log_a b
           = mix_log_cdf_flow z1 logit_pi ms log_s log_a b"
proof -
  have at: "mix_log_cdf_flow_at zz lp mm (map (max (- 7)) c) la bb
              = mix_log_cdf_flow_at zz lp mm c la bb" for zz lp mm c la bb
    by (simp add: mix_log_cdf_flow_at_def comp_def)
  have col: "map (\<lambda>row. row ! t) (map (map (map (max (- 7)))) log_s ! i)
               = map (max (- 7)) (map (\<lambda>row. row ! t) (log_s ! i))"
    if ii: "i < n" and tt: "t < l" for i t
  proof -
    have mem: "log_s ! i \<in> set log_s"
      using ii ls by (simp add: is_tensor3_def)
    then have "\<forall>row \<in> set (log_s ! i). t < length row"
      using tt ls by (auto simp: is_tensor3_def is_tensor_def)
    then show ?thesis
      using ii ls by (simp add: is_tensor3_def)
  qed
  have inner: "map (\<lambda>(t, z). mix_log_cdf_flow_at z (map (\<lambda>row. row ! t) (logit_pi ! i))
                        (map (\<lambda>row. row ! t) (ms ! i))
                        (map (\<lambda>row. row ! t) (map (map (map (max (- 7)))) log_s ! i))
                        (log_a ! i ! 0 ! t) (b ! i ! 0 ! t)) (enumerate 0 z_i)
             = map (\<lambda>(t, z). mix_log_cdf_flow_at z (map (\<lambda>row. row ! t) (logit_pi ! i))
                        (map (\<lambda>row. row ! t) (ms ! i))
                        (map (\<lambda>row. row ! t) (log_s ! i))
                        (log_a ! i ! 0 ! t) (b ! i ! 0 ! t)) (enumerate 0 z_i)"
    if ii: "i < n" and zl: "length z_i = l" for i z_i
  proof (rule map_cong[OF refl])
    fix q assume qm: "q \<in> set (enumerate 0 z_i)"
    obtain t zz where q: "q = (t, zz)" by (cases q)
    have t: "t < l" using qm zl by (simp add: q in_set_enumerate_eq)
    show "(case q of (t, z) \<Rightarrow> mix_log_cdf_flow_at z (map (\<lambda>row. row ! t) (logit_pi ! i))
                        (map (\<lambda>row. row ! t) (ms ! i))
                        (map (\<lambda>row. row ! t) (map (map (map (max (- 7)))) log_s ! i))
                        (log_a ! i ! 0 ! t) (b ! i ! 0 ! t))
        = (case q of (t, z) \<Rightarrow> mix_log_cdf_flow_at z (map (\<lambda>row. row ! t) (logit_pi ! i))
                        (map (\<lambda>row. row ! t) (ms ! i))
                        (map (\<lambda>row. row ! t) (log_s ! i))
                        (log_a ! i ! 0 ! t) (b ! i ! 0 ! t))"
      by (simp only: q prod.case col[OF ii t] at)
  qed
  have outer: "map (\<lambda>(i, z_i). map (\<lambda>(t, z). mix_log_cdf_flow_at z (map (\<lambda>row. row ! t) (logit_pi ! i))
                        (map (\<lambda>row. row ! t) (ms ! i))
                        (map (\<lambda>row. row ! t) (map (map (map (max (- 7)))) log_s ! i))
                        (log_a ! i ! 0 ! t) (b ! i ! 0 ! t)) (enumerate 0 z_i)) (enumerate 0 z1)
             = map (\<lambda>(i, z_i). map (\<lambda>(t, z). mix_log_cdf_flow_at z (map (\<lambda>row. row ! t) (logit_pi ! i))
                        (map (\<lambda>row. row ! t) (ms ! i))
                        (map (\<lambda>row. row ! t) (log_s ! i))
                        (log_a ! i ! 0 ! t) (b ! i ! 0 ! t)) (enumerate 0 z_i)) (enumerate 0 z1)"
  proof (rule map_cong[OF refl])
    fix q assume qm: "q \<in> set (enumerate 0 z1)"
    obtain i z_i where q: "q = (i, z_i)" by (cases q)
    have i: "i < n" and zi: "length z_i = l"
      using qm z by (auto simp: q in_set_enumerate_eq is_tensor_def)
    show "(case q of (i, z_i) \<Rightarrow> map (\<lambda>(t, z). mix_log_cdf_flow_at z (map (\<lambda>row. row ! t) (logit_pi ! i))
                        (map (\<lambda>row. row ! t) (ms ! i))
                        (map (\<lambda>row. row ! t) (map (map (map (max (- 7)))) log_s ! i))
                        (log_a ! i ! 0 ! t) (b ! i ! 0 ! t)) (enumerate 0 z_i))
        = (case q of (i, z_i) \<Rightarrow> map (\<lambda>(t, z). mix_log_cdf_flow_at z (map (\<lambda>row. row ! t) (logit_pi ! i))
                        (map (\<lambda>row. row ! t) (ms ! i))
                        (map (\<lambda>row. row ! t) (log_s ! i))
                        (log_a ! i ! 0 ! t) (b ! i ! 0 ! t)) (enumerate 0 z_i))"
      by (simp only: q prod.case inner[OF i zi])
  qed
  show ?thesis
    unfolding mix_log_cdf_flow_def Let_def by (simp only: outer)
qed

lemma tensor_1_1: "is_tensor 1 1 a \<Longrightarrow> a = [[a ! 0 ! 0]]"
  by (cases a; cases "hd a"; cases "tl a"; cases "tl (hd a)") (auto simp: is_tensor_def)

lemma sigmoid_0: "sigmoid 0 = 1 / 2"
  by (simp add: sigmoid_def)

lemma ex_scale: "1 / mix_scale (- 10) = exp 7"
  by (simp add: mix_scale_def exp_minus divide_inverse)

lemma ex_softmax: "softmax [0, ln 3] = [1 / 4, 3 / 4]"
  by (simp add: softmax_def)

lemma ex_mix_cdf: "mix_cdf 1 [0, ln 3] [0, 1] [- 10, 0] = sigmoid (exp 7) / 4 + 3 / 8"
  by (simp add: mix_cdf_def ex_softmax ex_scale sigmoid_0)

lemma ex_mix_pdf:
  "mix_pdf 1 [0, ln 3] [0, 1] [- 10, 0]
     = sigmoid (exp 7) * (1 - sigmoid (exp 7)) * exp 7 / 4 + 3 / 16"
  by (simp add: mix_pdf_def ex_softmax ex_scale sigmoid_0) (simp add: mix_scale_def exp_minus field_simps)


text \<open>
  Claim C9. For a latent of shape (n, l), mixture parameters of shape (n, k, l) with at
  least one component, and \<open>log_a\<close> and \<open>b\<close> of shape (n, 1, l), \<open>mix_log_cdf_flow\<close>
  returns two tensors of the shape of the latent; at every position \<open>(i, t)\<close> the first is
  \<open>new_z = exp log_a * (ln CDF - ln (1 - CDF)) + b\<close> and the second the log-determinant
  \<open>log_a - ln CDF - ln (1 - CDF) + ln density\<close>, where \<open>CDF\<close> and \<open>density\<close> are the
  mixture CDF and the mixture density of the components at that position, with the
  scales \<open>exp (max (-7) log_s)\<close>; the code obtains \<open>ln CDF\<close>, \<open>ln (1 - CDF)\<close> and
  \<open>ln density\<close> as log-sum-exp of per-component logarithms. The result is the one for
  the clamped \<open>log_s\<close>.
\<close>

theorem mix_log_cdf_flow_spec:
  assumes k: "0 < k"
    and z: "is_tensor n l z1"
    and lp: "is_tensor3 n k l logit_pi" and m: "is_tensor3 n k l ms"
    and ls: "is_tensor3 n k l log_s"
    and la: "is_tensor3 n 1 l log_a" and bb: "is_tensor3 n 1 l b"
  shows "is_tensor n l (fst (mix_log_cdf_flow z1 logit_pi ms log_s log_a b))
       \<and> is_tensor n l (snd (mix_log_cdf_flow z1 logit_pi ms log_s log_a b))
       \<and> (\<forall>i < n. \<forall>t < l.
            fst (mix_log_cdf_flow z1 logit_pi ms log_s log_a b) ! i ! t
              = exp (log_a ! i ! 0 ! t)
                  * (ln (mix_cdf (z1 ! i ! t) (column logit_pi i t) (column ms i t) (column log_s i t))
                     - ln (1 - mix_cdf (z1 ! i ! t) (column logit_pi i t) (column ms i t)
                                  (column log_s i t)))
                + b ! i ! 0 ! t
          \<and> snd (mix_log_cdf_flow z1 logit_pi ms log_s log_a b) ! i ! t
              = log_a ! i ! 0 ! t
                - ln (mix_cdf (z1 ! i ! t) (column logit_pi i t) (column ms i t) (column log_s i t))
                - ln (1 - mix_cdf (z1 ! i ! t) (column logit_pi i t) (column ms i t)
                             (column log_s i t))
                + ln (mix_pdf (z1 ! i ! t) (column logit_pi i t) (column ms i t)
                        (column log_s i t)))
       \<and> mix_log_cdf_flow z1 logit_pi ms (map (map (map (max (- 7)))) log_s) log_a b
           = mix_log_cdf_flow z1 logit_pi ms log_s log_a b"
proof -
  let ?r = "mix_log_cdf_flow z1 logit_pi ms log_s log_a b"
  have n: "length z1 = n" and rows: "\<forall>i < n. length (z1 ! i) = l"
    using z by (auto simp: is_tensor_def)
  have s1: "is_tensor n l (fst ?r)"
    unfolding is_tensor_def
    using n rows by (auto simp: mix_log_cdf_flow_shape in_set_conv_nth)
  have s2: "is_tensor n l (snd ?r)"
    unfolding is_tensor_def
    using n rows by (auto simp: mix_log_cdf_flow_shape in_set_conv_nth)
  have e: "fst ?r ! i ! t
              = exp (log_a ! i ! 0 ! t)
                  * (ln (mix_cdf (z1 ! i ! t) (column logit_pi i t) (column ms i t) (column log_s i t))
                     - ln (1 - mix_cdf (z1 ! i ! t) (column logit_pi i t) (column ms i t)
                                  (column log_s i t)))
                + b ! i ! 0 ! t
          \<and> snd ?r ! i ! t
              = log_a ! i ! 0 ! t
                - ln (mix_cdf (z1 ! i ! t) (column logit_pi i t) (column ms i t) (column log_s i t))
                - ln (1 - mix_cdf (z1 ! i ! t) (column logit_pi i t) (column ms i t)
                             (column log_s i t))
                + ln (mix_pdf (z1 ! i ! t) (column logit_pi i t) (column ms i t)
                        (column log_s i t))"
    if i: "i < n" and t: "t < l" for i t
  proof -
    have i': "i < length z1" and t': "t < length (z1 ! i)"
      using i t n rows by simp_all
    have ne: "column logit_pi i t \<noteq> []"
      using column_length[OF lp i, of t] k by auto
    have l1: "length (column ms i t) = length (column logit_pi i t)"
      by (simp only: column_length[OF lp i] column_length[OF m i])
    have l2: "length (column log_s i t) = length (column logit_pi i t)"
      by (simp only: column_length[OF lp i] column_length[OF ls i])
    note at = mix_log_cdf_flow_at_formula[OF ne l1 l2]
    show ?thesis
      by (simp only: mix_log_cdf_flow_entry[OF i' t'] at fst_conv snd_conv simp_thms)
  qed
  show ?thesis
    using s1 s2 e mix_log_cdf_flow_clamp[OF ls z] by blast
qed

theorem mix_log_cdf_flow_spec_witness:
  "mix_log_cdf_flow [[1]] [[[0], [ln 3]]] [[[0], [1]]] [[[- 10], [0]]] [[[1]]] [[[3]]]
     = ([[exp 1 * (ln (sigmoid (exp 7) / 4 + 3 / 8) - ln (1 - (sigmoid (exp 7) / 4 + 3 / 8))) + 3]],
        [[1 - ln (sigmoid (exp 7) / 4 + 3 / 8) - ln (1 - (sigmoid (exp 7) / 4 + 3 / 8))
            + ln (sigmoid (exp 7) * (1 - sigmoid (exp 7)) * exp 7 / 4 + 3 / 16)]])
   \<and> mix_log_cdf_flow [[1]] [[[0], [ln 3]]] [[[0], [1]]] [[[- 7], [0]]] [[[1]]] [[[3]]]
     = mix_log_cdf_flow [[1]] [[[0], [ln 3]]] [[[0], [1]]] [[[- 10], [0]]] [[[1]]] [[[3]]]"
proof -
  let ?r = "mix_log_cdf_flow [[1]] [[[0], [ln 3]]] [[[0], [1]]] [[[- 10], [0]]] [[[1]]] [[[3]]]"
  have k: "0 < (2 :: nat)" by simp
  have z: "is_tensor 1 1 [[1]]" by (simp add: is_tensor_def)
  have lp: "is_tensor3 1 2 1 [[[0], [ln 3]]]" and m: "is_tensor3 1 2 1 [[[0], [1]]]"
    and ls: "is_tensor3 1 2 1 [[[- 10], [0]]]"
    and la: "is_tensor3 1 1 1 [[[1]]]" and bb: "is_tensor3 1 1 1 [[[3]]]"
    by (simp_all add: is_tensor3_def is_tensor_def)
  note t = mix_log_cdf_flow_spec [OF k z lp m ls la bb]
  have s1: "is_tensor 1 1 (fst ?r)" and s2: "is_tensor 1 1 (snd ?r)"
    using t by blast+
  have cols: "column [[[0], [ln 3]]] 0 0 = [0, ln 3]" "column [[[0], [1]]] 0 0 = [0, 1]"
    "column [[[- 10], [0]]] 0 0 = [- 10, 0]"
    by (simp_all add: column_def)
  have e: "fst ?r ! 0 ! 0
             = exp 1 * (ln (sigmoid (exp 7) / 4 + 3 / 8) - ln (1 - (sigmoid (exp 7) / 4 + 3 / 8))) + 3
         \<and> snd ?r ! 0 ! 0
             = 1 - ln (sigmoid (exp 7) / 4 + 3 / 8) - ln (1 - (sigmoid (exp 7) / 4 + 3 / 8))
               + ln (sigmoid (exp 7) * (1 - sigmoid (exp 7)) * exp 7 / 4 + 3 / 16)"
    using t [THEN conjunct2, THEN conjunct2, THEN conjunct1, rule_format, of 0 0]
    by (simp add: cols ex_mix_cdf ex_mix_pdf)
  have "?r = (fst ?r, snd ?r)" by simp
  also have "\<dots> = ([[fst ?r ! 0 ! 0]], [[snd ?r ! 0 ! 0]])"
    using tensor_1_1[OF s1] tensor_1_1[OF s2] by simp
  finally have v: "?r = ([[exp 1 * (ln (sigmoid (exp 7) / 4 + 3 / 8) - ln (1 - (sigmoid (exp 7) / 4 + 3 / 8))) + 3]],
        [[1 - ln (sigmoid (exp 7) / 4 + 3 / 8) - ln (1 - (sigmoid (exp 7) / 4 + 3 / 8))
            + ln (sigmoid (exp 7) * (1 - sigmoid (exp 7)) * exp 7 / 4 + 3 / 16)]])"
    using e by simp
  have c: "mix_log_cdf_flow [[1]] [[[0], [ln 3]]] [[[0], [1]]] [[[- 7], [0]]] [[[1]]] [[[3]]] = ?r"
    using t [THEN conjunct2, THEN conjunct2, THEN conjunct2] by simp
  show ?thesis using v c by (rule conjI)
qed

end
